theory Spec2Isabelle
  imports Main "HOL-Library.AList"
begin

section \<open>JavaScript values\<close>

text \<open>
  Values that cross the boundary of \<^verbatim>\<open>terminalService.js\<close> untyped (arguments that
  arrive over IPC, a snapshot read back by \<^verbatim>\<open>JSON.parse\<close>) are modelled by a datatype
  of JavaScript values. Numbers are the integers (ids, columns and rows are small
  integers, on which JavaScript's doubles are exact); strings are ASCII. An object is
  the list of its own properties in the order in which JavaScript enumerates them, with
  distinct keys.
\<close>

datatype js =
    JUndef
  | JNull
  | JBool bool
  | JNum int
  | JStr string
  | JArr "js list"
  | JObj "(string \<times> js) list"

text \<open>An exception value: an \<^verbatim>\<open>Error\<close> with its optional \<^verbatim>\<open>code\<close> and its \<^verbatim>\<open>message\<close>.\<close>

record js_error =
  err_code :: "string option"
  err_message :: string

definition TypeError :: "string \<Rightarrow> js_error" where
  "TypeError m = \<lparr>err_code = None, err_message = m\<rparr>"

text \<open>JavaScript's \<^verbatim>\<open>ToBoolean\<close>, as used by \<^verbatim>\<open>!x\<close>, \<^verbatim>\<open>x || y\<close>, \<^verbatim>\<open>x ? a : b\<close>.\<close>

fun truthy :: "js \<Rightarrow> bool" where
  "truthy JUndef = False"
| "truthy JNull = False"
| "truthy (JBool b) = b"
| "truthy (JNum n) = (n \<noteq> 0)"
| "truthy (JStr s) = (s \<noteq> [])"
| "truthy (JArr xs) = True"
| "truthy (JObj kvs) = True"

text \<open>\<^verbatim>\<open>a || b\<close>\<close>

definition js_or :: "js \<Rightarrow> js \<Rightarrow> js" where
  "js_or a b = (if truthy a then a else b)"

text \<open>
  Reading a property \<^verbatim>\<open>v.k\<close>, for the property names the service reads
  (\<^verbatim>\<open>terminals\<close>, \<^verbatim>\<open>config\<close>, \<^verbatim>\<open>shellProfile\<close>, \<^verbatim>\<open>cwd\<close>, \<^verbatim>\<open>cols\<close>, \<^verbatim>\<open>rows\<close>, \<^verbatim>\<open>env\<close>):
  on \<^verbatim>\<open>null\<close> and \<^verbatim>\<open>undefined\<close> it throws a TypeError, on an object it is the property or
  \<^verbatim>\<open>undefined\<close>, on every other value it is \<^verbatim>\<open>undefined\<close>.
\<close>

fun get_prop :: "js \<Rightarrow> string \<Rightarrow> js_error + js" where
  "get_prop JUndef k = Inl (TypeError ''Cannot read properties of undefined'')"
| "get_prop JNull k = Inl (TypeError ''Cannot read properties of null'')"
| "get_prop (JObj kvs) k = Inr (case map_of kvs k of None \<Rightarrow> JUndef | Some v \<Rightarrow> v)"
| "get_prop v k = Inr JUndef"

text \<open>\<^verbatim>\<open>s.includes(p)\<close> on strings.\<close>

fun str_includes :: "string \<Rightarrow> string \<Rightarrow> bool" where
  "str_includes [] p = (p = [])"
| "str_includes (c # cs) p = (take (length p) (c # cs) = p \<or> str_includes cs p)"

section \<open>The pseudo-terminal process handle\<close>

text \<open>
  The handle returned by \<^verbatim>\<open>node-pty\<close> is outside the repository. The model keeps what
  \<^verbatim>\<open>TerminalInstance\<close> does to it (which listeners are subscribed, the calls to
  \<^verbatim>\<open>kill\<close>, \<^verbatim>\<open>write\<close> and \<^verbatim>\<open>resize\<close> it has received) and how it will answer the next call
  (what \<^verbatim>\<open>write\<close> and \<^verbatim>\<open>resize\<close> throw, for which signals \<^verbatim>\<open>kill\<close> throws); the
  environment may change the latter at any time. \<^verbatim>\<open>kill_calls\<close> lists every call
  of \<^verbatim>\<open>kill\<close> in order, whether or not it threw.
\<close>

datatype signal = SIGTERM | SIGKILL

record pty_process =
  onData_listener :: bool
  onExit_listener :: bool
  error_listener :: bool
  kill_calls :: "signal list"
  written :: "string list"
  pty_size :: "(int \<times> int) option"
  exited :: bool
  write_throws :: "js_error option"
  resize_throws :: "js_error option"
  kill_throws :: "signal list"

definition pty_kill :: "signal \<Rightarrow> pty_process \<Rightarrow> pty_process \<times> bool" where
  "pty_kill sig p = (p\<lparr>kill_calls := kill_calls p @ [sig]\<rparr>, sig \<in> set (kill_throws p))"

section \<open>TerminalInstance\<close>

record shell_profile =
  name :: string
  displayName :: string
  shell :: string
  args :: "string list"

text \<open>The entries of \<^verbatim>\<open>_disposables\<close> pushed by \<^verbatim>\<open>_setupPtyListeners\<close>.\<close>

datatype disposable = OnDataListener | OnExitListener | ErrorHandlerRemover

text \<open>
  The two callbacks handed to \<^verbatim>\<open>setImmediate\<close>: \<^verbatim>\<open>() => this.dispose()\<close> (process
  exit) and \<^verbatim>\<open>() => { if (!this._isDisposed) this.dispose() }\<close> (broken stream).
\<close>

datatype immediate = DisposeCallback | DisposeUnlessDisposed

text \<open>The events a \<^verbatim>\<open>TerminalInstance\<close> emits: \<^verbatim>\<open>data\<close>, \<^verbatim>\<open>exit\<close>, \<^verbatim>\<open>error\<close>.\<close>

datatype notification = Data string | Exit int "int option" | Error js_error

text \<open>
  The fields of the class, without the leading underscore (\<^verbatim>\<open>_id\<close> is \<open>tid\<close>).
  \<open>handlers\<close> says that \<^verbatim>\<open>_handlers\<close> is set, \<open>listeners\<close> that the service's three
  forwarders are registered on the instance's emitter. The callbacks of this instance
  that wait on the event loop are part of its state: \<open>kill_timeouts\<close> holds the delay of
  every escalation timer armed by \<^verbatim>\<open>setTimeout\<close> and not yet fired, \<open>immediates\<close> the
  pending \<^verbatim>\<open>setImmediate\<close> callbacks in order.
\<close>

record terminal_instance =
  tid :: nat
  pty :: "pty_process option"
  shellProfile :: "shell_profile option"
  cwd :: js
  cols :: int
  rows :: int
  isDisposed :: bool
  disposables :: "disposable list"
  handlers :: bool
  listeners :: bool
  kill_timeouts :: "nat list"
  immediates :: "immediate list"

text \<open>
  What a method call or a callback leaves behind: the instance, the events delivered
  to the registered listeners, and the exception that escaped, if any.
\<close>

type_synonym outcome = "terminal_instance \<times> notification list \<times> js_error option"

text \<open>
  \<^verbatim>\<open>_setupPtyListeners\<close>: \<^verbatim>\<open>onData\<close> and \<^verbatim>\<open>onExit\<close> of node-pty return disposables and
  the handle has \<^verbatim>\<open>on\<close>, so three entries are pushed.
\<close>

definition setupPtyListeners :: "terminal_instance \<Rightarrow> terminal_instance" where
  "setupPtyListeners t =
     (case pty t of
        None \<Rightarrow> t
      | Some p \<Rightarrow>
          t\<lparr>pty := Some (p\<lparr>onData_listener := True, onExit_listener := True,
                             error_listener := True\<rparr>),
            disposables := disposables t @ [OnDataListener, OnExitListener, ErrorHandlerRemover]\<rparr>)"

definition TerminalInstance ::
  "nat \<Rightarrow> pty_process option \<Rightarrow> shell_profile option \<Rightarrow> js \<Rightarrow> terminal_instance" where
  "TerminalInstance i ptyProcess profile dir =
     setupPtyListeners
       \<lparr>tid = i, pty = ptyProcess, shellProfile = profile, cwd = dir, cols = 80, rows = 30,
        isDisposed = False, disposables = [], handlers = False, listeners = False,
        kill_timeouts = [], immediates = []\<rparr>"

text \<open>
  \<^verbatim>\<open>this.emit(name, payload)\<close>: the registered forwarders receive the event; an
  \<^verbatim>\<open>error\<close> event without a listener is thrown by Node's EventEmitter.
\<close>

definition emit :: "terminal_instance \<Rightarrow> notification \<Rightarrow> outcome" where
  "emit t n =
     (if listeners t then (t, [n], None)
      else (case n of Error e \<Rightarrow> (t, [], Some e) | _ \<Rightarrow> (t, [], None)))"

definition broken_stream :: "js_error \<Rightarrow> bool" where
  "broken_stream e \<longleftrightarrow>
     err_code e = Some ''ERR_STREAM_DESTROYED'' \<or> str_includes (err_message e) ''EPIPE''"

text \<open>
  \<^verbatim>\<open>write(data)\<close> (named \<open>write_inst\<close>, since \<open>write\<close> is a keyword of Isabelle). A
  call that throws writes nothing.
\<close>

definition write_inst :: "string \<Rightarrow> terminal_instance \<Rightarrow> outcome" where
  "write_inst d t =
     (if isDisposed t then (t, [], None)
      else case pty t of
        None \<Rightarrow> (t, [], None)
      | Some p \<Rightarrow>
          (case write_throws p of
             None \<Rightarrow> (t\<lparr>pty := Some (p\<lparr>written := written p @ [d]\<rparr>)\<rparr>, [], None)
           | Some e \<Rightarrow>
               emit (if broken_stream e
                     then t\<lparr>immediates := immediates t @ [DisposeUnlessDisposed]\<rparr>
                     else t)
                    (Error e)))"

definition resize :: "int \<Rightarrow> int \<Rightarrow> terminal_instance \<Rightarrow> outcome" where
  "resize c r t =
     (if isDisposed t then (t, [], None)
      else case pty t of
        None \<Rightarrow> (t, [], None)
      | Some p \<Rightarrow>
          (let t1 = t\<lparr>cols := c, rows := r\<rparr> in
           case resize_throws p of
             None \<Rightarrow> (t1\<lparr>pty := Some (p\<lparr>pty_size := Some (c, r)\<rparr>)\<rparr>, [], None)
           | Some e \<Rightarrow>
               emit (if broken_stream e
                     then t1\<lparr>immediates := immediates t1 @ [DisposeUnlessDisposed]\<rparr>
                     else t1)
                    (Error e)))"

text \<open>
  \<^verbatim>\<open>getState\<close>: the object literal with its five keys in order;
  \<^verbatim>\<open>this._shellProfile?.name || null\<close>.
\<close>

definition getState :: "terminal_instance \<Rightarrow> js" where
  "getState t =
     JObj [(''id'', JNum (int (tid t))),
           (''shellProfile'',
              (case shellProfile t of
                 None \<Rightarrow> JNull
               | Some sp \<Rightarrow> js_or (JStr (name sp)) JNull)),
           (''cwd'', cwd t),
           (''cols'', JNum (cols t)),
           (''rows'', JNum (rows t))]"

definition shellName :: "terminal_instance \<Rightarrow> string" where
  "shellName t = (case shellProfile t of None \<Rightarrow> ''Shell'' | Some sp \<Rightarrow> displayName sp)"

text \<open>Step 3 of \<^verbatim>\<open>dispose\<close>: one entry of \<^verbatim>\<open>_disposables\<close> unsubscribes its listener.\<close>

fun dispose_listener :: "disposable \<Rightarrow> pty_process \<Rightarrow> pty_process" where
  "dispose_listener OnDataListener p = p\<lparr>onData_listener := False\<rparr>"
| "dispose_listener OnExitListener p = p\<lparr>onExit_listener := False\<rparr>"
| "dispose_listener ErrorHandlerRemover p = p\<lparr>error_listener := False\<rparr>"

text \<open>
  Step 2 of \<^verbatim>\<open>dispose\<close>: the 500 ms timer is armed first, then SIGTERM is sent; when
  that call throws, SIGKILL is sent at once. Every \<^verbatim>\<open>catch\<close> block only logs.
\<close>

definition kill_process :: "terminal_instance \<Rightarrow> terminal_instance" where
  "kill_process t =
     (case pty t of
        None \<Rightarrow> t
      | Some p \<Rightarrow>
          (let t1 = t\<lparr>kill_timeouts := kill_timeouts t @ [500]\<rparr>;
               (p1, termError) = pty_kill SIGTERM p;
               p2 = (if termError then fst (pty_kill SIGKILL p1) else p1)
           in t1\<lparr>pty := Some p2\<rparr>))"

definition dispose :: "terminal_instance \<Rightarrow> terminal_instance" where
  "dispose t =
     (if isDisposed t then t
      else
        let t1 = t\<lparr>isDisposed := True\<rparr>;
            t2 = (if handlers t1 then t1\<lparr>listeners := False, handlers := False\<rparr> else t1);
            t3 = kill_process t2;
            t4 = t3\<lparr>pty := map_option (fold dispose_listener (disposables t3)) (pty t3),
                    disposables := []\<rparr>;
            t5 = t4\<lparr>pty := map_option (\<lambda>p. p\<lparr>onData_listener := False,
                                                 onExit_listener := False,
                                                 error_listener := False\<rparr>) (pty t4)\<rparr>
        in t5\<lparr>listeners := False\<rparr>)"

text \<open>The three listeners that \<^verbatim>\<open>_setupPtyListeners\<close> subscribes on the handle.\<close>

definition onDataListener :: "string \<Rightarrow> terminal_instance \<Rightarrow> outcome" where
  "onDataListener d t = (if \<not> isDisposed t then emit t (Data d) else (t, [], None))"

definition onExitListener :: "int \<Rightarrow> int option \<Rightarrow> terminal_instance \<Rightarrow> outcome" where
  "onExitListener exitCode sig t =
     (if \<not> isDisposed t
      then (case emit t (Exit exitCode sig) of
              (t1, ns, thrown) \<Rightarrow> (t1\<lparr>immediates := immediates t1 @ [DisposeCallback]\<rparr>, ns, thrown))
      else (t, [], None))"

definition errorHandler :: "js_error \<Rightarrow> terminal_instance \<Rightarrow> outcome" where
  "errorHandler e t = (if \<not> isDisposed t then emit t (Error e) else (t, [], None))"

text \<open>The callback of the escalation timer, and the head of the \<^verbatim>\<open>setImmediate\<close> queue.\<close>

definition killTimeout_fires :: "terminal_instance \<Rightarrow> terminal_instance" where
  "killTimeout_fires t =
     (case kill_timeouts t of
        [] \<Rightarrow> t
      | d # ds \<Rightarrow>
          t\<lparr>kill_timeouts := ds,
            pty := map_option (\<lambda>p. fst (pty_kill SIGKILL p)) (pty t)\<rparr>)"

definition immediate_runs :: "terminal_instance \<Rightarrow> terminal_instance" where
  "immediate_runs t =
     (case immediates t of
        [] \<Rightarrow> t
      | DisposeCallback # cbs \<Rightarrow> dispose (t\<lparr>immediates := cbs\<rparr>)
      | DisposeUnlessDisposed # cbs \<Rightarrow>
          (if \<not> isDisposed t then dispose (t\<lparr>immediates := cbs\<rparr>) else t\<lparr>immediates := cbs\<rparr>))"

text \<open>
  Everything that can happen to one instance: the three public methods, the events of
  its process handle (delivered to a listener only while it is subscribed), its timer
  and its \<^verbatim>\<open>setImmediate\<close> callbacks coming due, and the environment changing how the
  handle answers.
\<close>

datatype inst_event =
    CallWrite string
  | CallResize int int
  | CallDispose
  | PtyData string
  | PtyExit int "int option"
  | PtyError js_error
  | KillTimeoutFires
  | ImmediateRuns
  | PtyBehaves "js_error option" "js_error option" "signal list"

fun inst_step :: "inst_event \<Rightarrow> terminal_instance \<Rightarrow> outcome" where
  "inst_step (CallWrite d) t = write_inst d t"
| "inst_step (CallResize c r) t = resize c r t"
| "inst_step CallDispose t = (dispose t, [], None)"
| "inst_step (PtyData d) t =
     (case pty t of
        None \<Rightarrow> (t, [], None)
      | Some p \<Rightarrow> if onData_listener p then onDataListener d t else (t, [], None))"
| "inst_step (PtyExit exitCode sig) t =
     (case pty t of
        None \<Rightarrow> (t, [], None)
      | Some p \<Rightarrow>
          (let t1 = t\<lparr>pty := Some (p\<lparr>exited := True\<rparr>)\<rparr>
           in if onExit_listener p then onExitListener exitCode sig t1 else (t1, [], None)))"
| "inst_step (PtyError e) t =
     (case pty t of
        None \<Rightarrow> (t, [], None)
      | Some p \<Rightarrow> if error_listener p then errorHandler e t else (t, [], None))"
| "inst_step KillTimeoutFires t = (killTimeout_fires t, [], None)"
| "inst_step ImmediateRuns t = (immediate_runs t, [], None)"
| "inst_step (PtyBehaves w r k) t =
     (t\<lparr>pty := map_option (\<lambda>p. p\<lparr>write_throws := w, resize_throws := r, kill_throws := k\<rparr>)
                          (pty t)\<rparr>, [], None)"

fun inst_run :: "inst_event list \<Rightarrow> terminal_instance \<Rightarrow> terminal_instance" where
  "inst_run [] t = t"
| "inst_run (e # es) t = inst_run es (fst (inst_step e t))"

text \<open>How often \<^verbatim>\<open>kill\<close> has been called on the instance's handle with a given signal.\<close>

definition kills :: "signal \<Rightarrow> terminal_instance \<Rightarrow> nat" where
  "kills sig t = (case pty t of None \<Rightarrow> 0 | Some p \<Rightarrow> count_list (kill_calls p) sig)"

section \<open>terminalManager\<close>

text \<open>
  What the module \<^verbatim>\<open>terminalManager\<close> reads from outside the repository is a parameter:
  the result of the file-system probe \<^verbatim>\<open>getAvailableShells()\<close>, of \<^verbatim>\<open>getDefaultShell()\<close>
  (shell and arguments), \<^verbatim>\<open>process.cwd()\<close>, \<^verbatim>\<open>os.homedir()\<close>, \<^verbatim>\<open>process.env\<close>, and
  node-pty's \<^verbatim>\<open>pty.spawn\<close>, which returns a fresh handle or throws.
\<close>

record pty_options =
  opt_name :: string
  opt_cols :: js
  opt_rows :: js
  opt_cwd :: js
  opt_env :: js
  opt_useConpty :: "bool option"

record world =
  availableShells :: "shell_profile list"
  defaultShell :: "string \<times> string list"
  process_cwd :: string
  os_homedir :: string
  process_env :: js
  pty_spawn :: "string \<Rightarrow> string list \<Rightarrow> pty_options \<Rightarrow> js_error + pty_process"

text \<open>The options object that \<^verbatim>\<open>createTerminal\<close> hands to \<^verbatim>\<open>spawnShell\<close>.\<close>

record spawn_options =
  so_cols :: js
  so_rows :: js
  so_env :: js
  so_useConpty :: bool

definition getShellByProfile :: "world \<Rightarrow> js \<Rightarrow> shell_profile option" where
  "getShellByProfile w profileName = find (\<lambda>s. JStr (name s) = profileName) (availableShells w)"

definition getDefaultShellProfile :: "world \<Rightarrow> shell_profile" where
  "getDefaultShellProfile w =
     (case find (\<lambda>s. shell s = fst (defaultShell w)) (availableShells w) of
        Some matchingProfile \<Rightarrow> matchingProfile
      | None \<Rightarrow>
          (case find (\<lambda>s. name s = ''cmd'') (availableShells w) of
             Some c \<Rightarrow> c
           | None \<Rightarrow>
               (case availableShells w of
                  s0 # _ \<Rightarrow> s0
                | [] \<Rightarrow> \<lparr>name = ''shell'', displayName = ''Shell'',
                         shell = fst (defaultShell w), args = snd (defaultShell w)\<rparr>)))"

text \<open>
  \<^verbatim>\<open>spawnShell\<close>: the options literal is built with its defaults and then overwritten by
  the spread \<^verbatim>\<open>...options\<close> of the four properties the caller passed.
\<close>

definition spawnShell :: "world \<Rightarrow> js \<Rightarrow> js \<Rightarrow> spawn_options \<Rightarrow> js_error + pty_process" where
  "spawnShell w profile dir options =
     (let shellConfig =
            (if truthy profile
             then (case find (\<lambda>s. JStr (name s) = profile) (availableShells w) of
                     Some selectedShell \<Rightarrow> (shell selectedShell, args selectedShell)
                   | None \<Rightarrow> defaultShell w)
             else defaultShell w);
          workingDirectory = js_or dir (JStr (os_homedir w));
          ptyOptions =
            \<lparr>opt_name = ''xterm-color'',
             opt_cols = js_or (so_cols options) (JNum 80),
             opt_rows = js_or (so_rows options) (JNum 30),
             opt_cwd = workingDirectory,
             opt_env = js_or (so_env options) (process_env w),
             opt_useConpty = None\<rparr>
            \<lparr>opt_cols := so_cols options, opt_rows := so_rows options,
             opt_env := so_env options, opt_useConpty := Some (so_useConpty options)\<rparr>
      in pty_spawn w (fst shellConfig) (snd shellConfig) ptyOptions)"

section \<open>TerminalService\<close>

text \<open>The events the service emits to the host.\<close>

datatype service_event =
    TerminalData nat string
  | TerminalExit nat int "int option"
  | TerminalError nat js_error
  | TerminalCreated nat string js
  | TerminalClosed nat
  | ConfigChanged "(string \<times> js) list"

text \<open>
  \<open>terminals\<close> is the \<^verbatim>\<open>Map\<close> \<^verbatim>\<open>_terminals\<close>: its entries in insertion order, each id with
  the address of its instance. The instances are objects: \<open>heap\<close> holds every instance
  the service has created, at its address, whether or not it is still registered (the
  host and the event loop keep references to closed ones). \<open>emitted\<close> is the sequence
  of events emitted by the service so far and \<open>console_error\<close> the calls of
  \<^verbatim>\<open>console.error\<close> made by the service (label and error); \<^verbatim>\<open>console.log\<close> and
  \<^verbatim>\<open>console.warn\<close> are not modelled.
\<close>

record terminal_service =
  terminals :: "(nat \<times> nat) list"
  nextTerminalId :: nat
  config :: "(string \<times> js) list"
  heap :: "terminal_instance list"
  emitted :: "service_event list"
  console_error :: "(string \<times> js_error) list"

definition loadConfig :: "(string \<times> js) list" where
  "loadConfig =
     [(''defaultProfile'', JNull),
      (''fontFamily'', JStr (''Consolas, '' @ [CHR 0x22] @ ''Courier New'' @ [CHR 0x22] @ '', monospace'')),
      (''fontSize'', JNum 14),
      (''cursorBlink'', JBool True),
      (''scrollback'', JNum 1000),
      (''theme'', JObj [(''background'', JStr ''#1e1e1e''), (''foreground'', JStr ''#d4d4d4'')])]"

definition TerminalService :: terminal_service where
  "TerminalService =
     \<lparr>terminals = [], nextTerminalId = 1, config = loadConfig, heap = [], emitted = [],
      console_error = []\<rparr>"

text \<open>\<^verbatim>\<open>this._terminals.has(id)\<close>\<close>

definition has :: "terminal_service \<Rightarrow> nat \<Rightarrow> bool" where
  "has s i \<longleftrightarrow> map_of (terminals s) i \<noteq> None"

definition service_emit :: "service_event \<Rightarrow> terminal_service \<Rightarrow> terminal_service" where
  "service_emit ev s = s\<lparr>emitted := emitted s @ [ev]\<rparr>"

text \<open>
  The own enumerable properties that an object spread \<^verbatim>\<open>{...v}\<close> copies: those of an
  object, the indices of an array or a string, nothing for the other values.
\<close>

fun show_nat :: "nat \<Rightarrow> string" where
  "show_nat n =
     (if n < 10 then [char_of (48 + n)]
      else show_nat (n div 10) @ [char_of (48 + n mod 10)])"

fun own_props :: "js \<Rightarrow> (string \<times> js) list" where
  "own_props (JObj kvs) = kvs"
| "own_props (JArr xs) = zip (map show_nat [0..<length xs]) xs"
| "own_props (JStr cs) = zip (map show_nat [0..<length cs]) (map (\<lambda>c. JStr [c]) cs)"
| "own_props v = []"

text \<open>
  JavaScript enumerates the properties whose name is an array index (a canonical
  decimal numeral below \<open>2\<^sup>3\<^sup>2 - 1\<close>) first, in ascending numeric order, and the
  others after them in insertion order.
\<close>

definition index_value :: "string \<Rightarrow> int" where
  "index_value k = foldl (\<lambda>n c. 10 * n + (of_char c - 48)) 0 k"

definition is_index :: "string \<Rightarrow> bool" where
  "is_index k \<longleftrightarrow>
     k \<noteq> [] \<and> list_all (\<lambda>c. c \<in> set ''0123456789'') k \<and>
     (k = ''0'' \<or> hd k \<noteq> CHR ''0'') \<and> index_value k < 2 ^ 32 - 1"

definition property_order :: "(string \<times> js) list \<Rightarrow> (string \<times> js) list" where
  "property_order kvs =
     sort_key (\<lambda>(k, v). index_value k) (filter (\<lambda>(k, v). is_index k) kvs) @
     filter (\<lambda>(k, v). \<not> is_index k) kvs"

text \<open>\<^verbatim>\<open>{ ...a, ...b }\<close> on property lists.\<close>

definition spread :: "(string \<times> js) list \<Rightarrow> (string \<times> js) list \<Rightarrow> (string \<times> js) list" where
  "spread a b = property_order (fold (\<lambda>(k, v). AList.update k v) b a)"

definition getConfig :: "terminal_service \<Rightarrow> (string \<times> js) list" where
  "getConfig s = spread [] (config s)"

definition updateConfig :: "js \<Rightarrow> terminal_service \<Rightarrow> terminal_service" where
  "updateConfig updates s =
     (let s1 = s\<lparr>config := spread (config s) (own_props updates)\<rparr>
      in service_emit (ConfigChanged (config s1)) s1)"

text \<open>
  The three forwarders that \<^verbatim>\<open>createTerminal\<close> registers on an instance; each closes
  over the \<^verbatim>\<open>terminalId\<close> of its instance.
\<close>

definition dataHandler :: "nat \<Rightarrow> string \<Rightarrow> terminal_service \<Rightarrow> terminal_service" where
  "dataHandler terminalId d s =
     (if has s terminalId then service_emit (TerminalData terminalId d) s else s)"

definition exitHandler :: "nat \<Rightarrow> int \<Rightarrow> int option \<Rightarrow> terminal_service \<Rightarrow> terminal_service" where
  "exitHandler terminalId exitCode sig s =
     (let s1 = (if has s terminalId then service_emit (TerminalExit terminalId exitCode sig) s
                else s)
      in s1\<lparr>terminals := AList.delete terminalId (terminals s1)\<rparr>)"

definition errorForwarder :: "nat \<Rightarrow> js_error \<Rightarrow> terminal_service \<Rightarrow> terminal_service" where
  "errorForwarder terminalId e s =
     (if has s terminalId then service_emit (TerminalError terminalId e) s else s)"

fun forward :: "nat \<Rightarrow> notification \<Rightarrow> terminal_service \<Rightarrow> terminal_service" where
  "forward terminalId (Data d) s = dataHandler terminalId d s"
| "forward terminalId (Exit exitCode sig) s = exitHandler terminalId exitCode sig s"
| "forward terminalId (Error e) s = errorForwarder terminalId e s"

text \<open>
  \<^verbatim>\<open>createTerminal(profileName = null, cwd = null, options = {})\<close>. The result is the
  new state and either the exception rethrown by the \<^verbatim>\<open>catch\<close> block or the address of
  the instance returned.
\<close>

definition default_param :: "js \<Rightarrow> js \<Rightarrow> js" where
  "default_param v d = (if v = JUndef then d else v)"

definition createTerminal ::
  "world \<Rightarrow> js \<Rightarrow> js \<Rightarrow> js \<Rightarrow> terminal_service \<Rightarrow> terminal_service \<times> (js_error + nat)" where
  "createTerminal w profileName0 cwd0 options0 s =
     (let profileName = default_param profileName0 JNull;
          dir = default_param cwd0 JNull;
          options = default_param options0 (JObj []);
          terminalId = nextTerminalId s;
          s1 = s\<lparr>nextTerminalId := nextTerminalId s + 1\<rparr>;
          workingDir = js_or dir (JStr (process_cwd w));
          profile = (if truthy profileName then getShellByProfile w profileName
                     else Some (getDefaultShellProfile w));
          spawned =
            (case get_prop options ''cols'' of
               Inl e \<Rightarrow> Inl e
             | Inr c \<Rightarrow>
                 (case get_prop options ''rows'' of
                    Inl e \<Rightarrow> Inl e
                  | Inr r \<Rightarrow>
                      (case get_prop options ''env'' of
                         Inl e \<Rightarrow> Inl e
                       | Inr env \<Rightarrow>
                           spawnShell w profileName workingDir
                             \<lparr>so_cols = js_or c (JNum 80), so_rows = js_or r (JNum 30),
                              so_env = js_or env (process_env w), so_useConpty = True\<rparr>)))
      in case spawned of
           Inl e \<Rightarrow>
             (s1\<lparr>console_error := console_error s1 @ [(''Failed to create terminal:'', e)]\<rparr>,
              Inl e)
         | Inr ptyProcess \<Rightarrow>
             (let terminal = TerminalInstance terminalId (Some ptyProcess) profile workingDir;
                  a = length (heap s1);
                  s2 = s1\<lparr>heap := heap s1 @ [terminal\<lparr>listeners := True, handlers := True\<rparr>],
                          terminals := AList.update terminalId a (terminals s1)\<rparr>
              in (service_emit (TerminalCreated terminalId (shellName terminal) workingDir) s2,
                  Inr a)))"

definition getTerminal :: "nat \<Rightarrow> terminal_service \<Rightarrow> terminal_instance option" where
  "getTerminal terminalId s = map_option (\<lambda>a. heap s ! a) (map_of (terminals s) terminalId)"

definition getAllTerminalIds :: "terminal_service \<Rightarrow> nat list" where
  "getAllTerminalIds s = map fst (terminals s)"

definition getAllTerminals :: "terminal_service \<Rightarrow> terminal_instance list" where
  "getAllTerminals s = map (\<lambda>(i, a). heap s ! a) (terminals s)"

definition closeTerminal :: "nat \<Rightarrow> terminal_service \<Rightarrow> terminal_service \<times> bool" where
  "closeTerminal terminalId s =
     (case map_of (terminals s) terminalId of
        None \<Rightarrow> (s, False)
      | Some a \<Rightarrow>
          (let s1 = s\<lparr>heap := (heap s)[a := dispose (heap s ! a)]\<rparr>;
               s2 = s1\<lparr>terminals := AList.delete terminalId (terminals s1)\<rparr>
           in (service_emit (TerminalClosed terminalId) s2, True)))"

definition closeAllTerminals :: "terminal_service \<Rightarrow> terminal_service" where
  "closeAllTerminals s = fold (\<lambda>i s'. fst (closeTerminal i s')) (map fst (terminals s)) s"

definition getTerminalState :: "terminal_service \<Rightarrow> js" where
  "getTerminalState s =
     JObj [(''terminals'', JArr (map getState (getAllTerminals s))),
           (''config'', JObj (config s))]"

text \<open>
  The body of the \<^verbatim>\<open>forEach\<close> in \<^verbatim>\<open>restoreTerminals\<close>: whatever the \<^verbatim>\<open>try\<close> block
  throws (reading a property of a \<^verbatim>\<open>null\<close> entry, \<^verbatim>\<open>createTerminal\<close>) is logged.
\<close>

definition restore_entry :: "world \<Rightarrow> js \<Rightarrow> terminal_service \<Rightarrow> terminal_service" where
  "restore_entry w terminalState s =
     (case get_prop terminalState ''shellProfile'' of
        Inl e \<Rightarrow> s\<lparr>console_error := console_error s @ [(''Failed to restore terminal:'', e)]\<rparr>
      | Inr p \<Rightarrow>
          (case get_prop terminalState ''cwd'' of
             Inl e \<Rightarrow> s\<lparr>console_error := console_error s @ [(''Failed to restore terminal:'', e)]\<rparr>
           | Inr d \<Rightarrow>
               (case get_prop terminalState ''cols'' of
                  Inl e \<Rightarrow>
                    s\<lparr>console_error := console_error s @ [(''Failed to restore terminal:'', e)]\<rparr>
                | Inr c \<Rightarrow>
                    (case get_prop terminalState ''rows'' of
                       Inl e \<Rightarrow>
                         s\<lparr>console_error :=
                             console_error s @ [(''Failed to restore terminal:'', e)]\<rparr>
                     | Inr r \<Rightarrow>
                         (case createTerminal w p d (JObj [(''cols'', c), (''rows'', r)]) s of
                            (s1, Inl e) \<Rightarrow>
                              s1\<lparr>console_error :=
                                   console_error s1 @ [(''Failed to restore terminal:'', e)]\<rparr>
                          | (s1, Inr a) \<Rightarrow> s1)))))"

text \<open>
  \<^verbatim>\<open>restoreTerminals(state)\<close>: the second component is the TypeError that escapes when
  \<^verbatim>\<open>state.terminals\<close> is truthy but has no \<^verbatim>\<open>forEach\<close>.
\<close>

definition restoreTerminals ::
  "world \<Rightarrow> js \<Rightarrow> terminal_service \<Rightarrow> terminal_service \<times> js_error option" where
  "restoreTerminals w state s =
     (if \<not> truthy state then (s, None)
      else case get_prop state ''terminals'' of
        Inl e \<Rightarrow> (s, Some e)
      | Inr ts \<Rightarrow>
          (if \<not> truthy ts then (s, None)
           else
             let s1 = (case get_prop state ''config'' of
                         Inl e \<Rightarrow> s
                       | Inr c \<Rightarrow>
                           if truthy c then s\<lparr>config := spread (config s) (own_props c)\<rparr>
                           else s)
             in case ts of
                  JArr xs \<Rightarrow> (fold (restore_entry w) xs s1, None)
                | _ \<Rightarrow> (s1, Some (TypeError ''state.terminals.forEach is not a function''))))"

text \<open>\<^verbatim>\<open>TerminalService.dispose()\<close>; the service's own listeners are not part of the model.\<close>

definition dispose_service :: "terminal_service \<Rightarrow> terminal_service" where
  "dispose_service s = closeAllTerminals s"

text \<open>
  Something happens to the instance at address \<open>a\<close>: its state changes, and every
  event it emits reaches the forwarders registered on it.
\<close>

definition instance_event :: "nat \<Rightarrow> inst_event \<Rightarrow> terminal_service \<Rightarrow> terminal_service" where
  "instance_event a ev s =
     (if a < length (heap s)
      then (case inst_step ev (heap s ! a) of
              (t1, ns, thrown) \<Rightarrow> fold (forward (tid t1)) ns (s\<lparr>heap := (heap s)[a := t1]\<rparr>))
      else s)"

text \<open>
  Everything that can happen to the service: the host calls one of its methods, or
  something happens to one of the instances it has created.
\<close>

datatype event =
    CreateTerminal world js js js
  | CloseTerminal nat
  | CloseAllTerminals
  | RestoreTerminals world js
  | UpdateConfig js
  | Instance nat inst_event

fun step :: "event \<Rightarrow> terminal_service \<Rightarrow> terminal_service" where
  "step (CreateTerminal w p d opts) s = fst (createTerminal w p d opts s)"
| "step (CloseTerminal i) s = fst (closeTerminal i s)"
| "step CloseAllTerminals s = closeAllTerminals s"
| "step (RestoreTerminals w state) s = fst (restoreTerminals w state s)"
| "step (UpdateConfig updates) s = updateConfig updates s"
| "step (Instance a ev) s = instance_event a ev s"

fun run :: "event list \<Rightarrow> terminal_service \<Rightarrow> terminal_service" where
  "run [] s = s"
| "run (e # es) s = run es (step e s)"

section \<open>Observations and example inputs\<close>

text \<open>The ids carried by the \<^verbatim>\<open>terminal-created\<close> events of a trace, in order.\<close>

fun created_ids :: "service_event list \<Rightarrow> nat list" where
  "created_ids [] = []"
| "created_ids (TerminalCreated i n d # evs) = i # created_ids evs"
| "created_ids (ev # evs) = created_ids evs"

text \<open>The \<^verbatim>\<open>terminal-exit\<close> and the \<^verbatim>\<open>terminal-data\<close> events of a trace that carry a given id.\<close>

fun exit_events :: "nat \<Rightarrow> service_event list \<Rightarrow> service_event list" where
  "exit_events i [] = []"
| "exit_events i (TerminalExit j c sg # evs) =
     (if j = i then TerminalExit j c sg # exit_events i evs else exit_events i evs)"
| "exit_events i (ev # evs) = exit_events i evs"

fun data_events :: "nat \<Rightarrow> service_event list \<Rightarrow> service_event list" where
  "data_events i [] = []"
| "data_events i (TerminalData j d # evs) =
     (if j = i then TerminalData j d # data_events i evs else data_events i evs)"
| "data_events i (ev # evs) = data_events i evs"

text \<open>The property names of an object, in order.\<close>

fun keys_of :: "js \<Rightarrow> string list" where
  "keys_of (JObj kvs) = map fst kvs"
| "keys_of v = []"

text \<open>A freshly spawned process handle that answers every call normally.\<close>

definition pty0 :: pty_process where
  "pty0 =
     \<lparr>onData_listener = False, onExit_listener = False, error_listener = False,
      kill_calls = [], written = [], pty_size = None, exited = False,
      write_throws = None, resize_throws = None, kill_throws = []\<rparr>"


text \<open>\<^verbatim>\<open>new TerminalInstance(1, pty, null, '/home/u')\<close>\<close>

definition inst0 :: terminal_instance where
  "inst0 = TerminalInstance 1 (Some pty0) None (JStr ''/home/u'')"


text \<open>An error that \<^verbatim>\<open>pty.spawn\<close> throws when the process cannot be started.\<close>

definition spawn_error :: js_error where
  "spawn_error = \<lparr>err_code = Some ''ENOENT'', err_message = ''spawn failed''\<rparr>"

text \<open>
  The error of node-pty's check of its options: \<^verbatim>\<open>cols\<close> and \<^verbatim>\<open>rows\<close> must be numbers.
\<close>

definition options_error :: js_error where
  "options_error = \<lparr>err_code = None, err_message = ''cols must be a number''\<rparr>"

fun is_number :: "js \<Rightarrow> bool" where
  "is_number (JNum n) = True"
| "is_number v = False"

text \<open>
  A Linux host with one shell, on which a spawn succeeds unless \<^verbatim>\<open>cols\<close> or \<^verbatim>\<open>rows\<close> is
  not a number.
\<close>

definition bash :: shell_profile where
  "bash = \<lparr>name = ''bash'', displayName = ''Bash'', shell = ''/bin/bash'', args = []\<rparr>"

definition world0 :: world where
  "world0 =
     \<lparr>availableShells = [bash], defaultShell = (''/bin/bash'', []), process_cwd = ''/'',
      os_homedir = ''/home/u'', process_env = JObj [],
      pty_spawn = (\<lambda>sh ar po. if is_number (opt_cols po) \<and> is_number (opt_rows po)
                               then Inr pty0 else Inl options_error)\<rparr>"

text \<open>The same host when every \<^verbatim>\<open>pty.spawn\<close> throws.\<close>

definition world_fail :: world where
  "world_fail = world0\<lparr>pty_spawn := (\<lambda>sh ar po. Inl spawn_error)\<rparr>"

text \<open>A well-formed session descriptor, as \<^verbatim>\<open>getState\<close> writes it.\<close>

definition descriptor0 :: js where
  "descriptor0 =
     JObj [(''id'', JNum 1), (''shellProfile'', JStr ''bash''), (''cwd'', JStr ''/home/u''),
           (''cols'', JNum 80), (''rows'', JNum 30)]"

text \<open>A descriptor without any field, and one whose \<^verbatim>\<open>cols\<close> is a string.\<close>

definition descriptor_empty :: js where
  "descriptor_empty = JObj []"

definition descriptor_bad_cols :: js where
  "descriptor_bad_cols =
     JObj [(''id'', JNum 3), (''shellProfile'', JStr ''bash''), (''cwd'', JStr ''/home/u''),
           (''cols'', JStr ''wide''), (''rows'', JNum 30)]"

definition snapshot :: "js list \<Rightarrow> js" where
  "snapshot ds = JObj [(''terminals'', JArr ds), (''config'', JObj [(''fontSize'', JNum 16)])]"

text \<open>\<^verbatim>\<open>terminalService.createTerminal(null, '/home/u')\<close> on the example host.\<close>

definition Create0 :: event where
  "Create0 = CreateTerminal world0 JNull (JStr ''/home/u'') JUndef"

text \<open>The service after that one call.\<close>

definition service1 :: terminal_service where
  "service1 = run [Create0] TerminalService"

text \<open>How many entries \<^verbatim>\<open>restoreTerminals\<close> has logged as failed.\<close>

definition restore_failures :: "terminal_service \<Rightarrow> nat" where
  "restore_failures s =
     length (filter (\<lambda>(label, e). label = ''Failed to restore terminal:'') (console_error s))"

section \<open>Restoring a snapshot, descriptor by descriptor\<close>

text \<open>
  What restoring a snapshot is to do, stated on its own for comparison with
  \<^verbatim>\<open>restoreTerminals\<close>. A field of a descriptor is its property, \<^verbatim>\<open>undefined\<close> when the
  descriptor has none.
\<close>

definition field :: "js \<Rightarrow> string \<Rightarrow> js" where
  "field x k = (case get_prop x k of Inl e \<Rightarrow> JUndef | Inr v \<Rightarrow> v)"

text \<open>
  The spawn that one descriptor asks of the host: its profile name, its working
  directory and its dimensions, where a missing or falsy working directory is replaced by
  the current directory of the host and missing or falsy dimensions by 80 and 30; any
  other value, ill-typed or not, is handed to the spawn as it is.
\<close>

definition descriptor_spawn :: "world \<Rightarrow> js \<Rightarrow> js_error + pty_process" where
  "descriptor_spawn w x =
     spawnShell w (field x ''shellProfile'') (js_or (field x ''cwd'') (JStr (process_cwd w)))
       \<lparr>so_cols = js_or (field x ''cols'') (JNum 80),
        so_rows = js_or (field x ''rows'') (JNum 30),
        so_env = process_env w, so_useConpty = True\<rparr>"

text \<open>
  A descriptor is skipped when it is \<^verbatim>\<open>null\<close> or \<^verbatim>\<open>undefined\<close> (reading its fields
  throws) or when its spawn throws.
\<close>

definition skipped :: "world \<Rightarrow> js \<Rightarrow> bool" where
  "skipped w x \<longleftrightarrow> x = JNull \<or> x = JUndef \<or> isl (descriptor_spawn w x)"

text \<open>
  The registry entries that restoring the descriptors \<open>xs\<close> adds, when the id counter is
  \<open>n\<close> and the next instance goes to address \<open>a\<close>: one entry for every descriptor that is
  not skipped, in order. A \<^verbatim>\<open>null\<close> descriptor takes no id; a descriptor whose spawn
  throws takes an id and registers nothing.
\<close>

fun restored_entries :: "world \<Rightarrow> js list \<Rightarrow> nat \<Rightarrow> nat \<Rightarrow> (nat \<times> nat) list" where
  "restored_entries w [] n a = []"
| "restored_entries w (x # xs) n a =
     (if x = JNull \<or> x = JUndef then restored_entries w xs n a
      else if isl (descriptor_spawn w x) then restored_entries w xs (Suc n) a
      else (n, a) # restored_entries w xs (Suc n) (Suc a))"

section \<open>Invariants of the service\<close>

text \<open>Every registered id is below the id counter.\<close>

definition keys_below :: "terminal_service \<Rightarrow> bool" where
  "keys_below s \<longleftrightarrow> (\<forall>i. has s i \<longrightarrow> i < nextTerminalId s)"

text \<open>
  The ids of the instances created so far, in creation order, are those announced by
  \<^verbatim>\<open>terminal-created\<close>; they increase strictly and stay below the id counter.
\<close>

definition ids_inv :: "terminal_service \<Rightarrow> bool" where
  "ids_inv s \<longleftrightarrow>
     created_ids (emitted s) = map tid (heap s) \<and>
     sorted_wrt (<) (map tid (heap s)) \<and>
     (\<forall>t \<in> set (heap s). tid t < nextTerminalId s)"

text \<open>
  For one id: while it is registered no \<^verbatim>\<open>terminal-exit\<close> has been emitted for it, at
  most one ever is, and none for an id that has not been assigned yet.
\<close>

definition exit_inv :: "nat \<Rightarrow> terminal_service \<Rightarrow> bool" where
  "exit_inv i s \<longleftrightarrow>
     (has s i \<longrightarrow> exit_events i (emitted s) = []) \<and>
     length (exit_events i (emitted s)) \<le> 1 \<and>
     (nextTerminalId s \<le> i \<longrightarrow> \<not> has s i \<and> exit_events i (emitted s) = [])"

text \<open>
  An id that has been assigned and is no longer registered, with the
  \<^verbatim>\<open>terminal-exit\<close> and \<^verbatim>\<open>terminal-data\<close> events emitted for it so far.
\<close>

definition retired :: "nat \<Rightarrow> service_event list \<Rightarrow> service_event list \<Rightarrow> terminal_service \<Rightarrow> bool" where
  "retired i xs ds s \<longleftrightarrow>
     \<not> has s i \<and> i < nextTerminalId s \<and>
     exit_events i (emitted s) = xs \<and> data_events i (emitted s) = ds"

text \<open>
  A non-disposed instance created by the service has the forwarders registered and its
  three listeners subscribed on the process handle.
\<close>

definition attached :: "terminal_instance \<Rightarrow> bool" where
  "attached t \<longleftrightarrow>
     (\<not> isDisposed t \<longrightarrow>
        listeners t \<and>
        (\<exists>p. pty t = Some p \<and> onData_listener p \<and> onExit_listener p \<and> error_listener p))"

text \<open>Every registry entry points to an instance on the heap that carries its id.\<close>

definition registry_inv :: "terminal_service \<Rightarrow> bool" where
  "registry_inv s \<longleftrightarrow>
     (\<forall>i a. map_of (terminals s) i = Some a \<longrightarrow> a < length (heap s) \<and> tid (heap s ! a) = i) \<and>
     (\<forall>t \<in> set (heap s). attached t)"

section \<open>Properties of TerminalInstance\<close>

lemma dispose_listener_kill_calls [simp]: "kill_calls (dispose_listener x p) = kill_calls p"
  by (cases x) simp_all

lemma kill_calls_fold_dispose_listener [simp]:
  "kill_calls (fold dispose_listener ds p) = kill_calls p"
  by (induction ds arbitrary: p) simp_all

lemma kill_process_fields [simp]:
  "isDisposed (kill_process t) = isDisposed t"
  "tid (kill_process t) = tid t"
  "cols (kill_process t) = cols t"
  "rows (kill_process t) = rows t"
  "listeners (kill_process t) = listeners t"
  "handlers (kill_process t) = handlers t"
  "disposables (kill_process t) = disposables t"
  "immediates (kill_process t) = immediates t"
  by (simp_all add: kill_process_def Let_def split: option.splits prod.splits)

lemma isDisposed_dispose [simp]: "isDisposed (dispose t)"
  by (simp add: dispose_def Let_def)

lemma dispose_fields [simp]:
  "tid (dispose t) = tid t"
  "cols (dispose t) = cols t"
  "rows (dispose t) = rows t"
  by (simp_all add: dispose_def Let_def)

lemma dispose_disposed: "isDisposed t \<Longrightarrow> dispose t = t"
  by (simp add: dispose_def)

lemma kills_dispose:
  "kills SIGTERM (dispose t) \<le> kills SIGTERM t + (if isDisposed t then 0 else 1)"
  by (cases "pty t")
     (simp_all add: dispose_def Let_def kill_process_def pty_kill_def kills_def split: prod.splits)

lemma emit_fst [simp]: "fst (emit t n) = t"
  by (simp add: emit_def split: notification.splits)

lemma inst_step_disposed: "isDisposed t \<Longrightarrow> isDisposed (fst (inst_step e t))"
  by (cases e) (auto simp: write_inst_def resize_def killTimeout_fires_def Let_def
     immediate_runs_def onDataListener_def onExitListener_def errorHandler_def 
     split: option.splits list.splits immediate.splits prod.splits)

lemma inst_step_tid: "tid (fst (inst_step e t)) = tid t"
  by (cases e) (auto simp: write_inst_def resize_def killTimeout_fires_def
     immediate_runs_def onDataListener_def onExitListener_def errorHandler_def Let_def emit_def
     split: option.splits list.splits immediate.splits prod.splits notification.splits)

lemma inst_step_kills:
  "kills SIGTERM (fst (inst_step e t)) \<le> kills SIGTERM t + (if isDisposed t then 0 else 1)"
proof (cases e)
  case CallDispose
  then show ?thesis using kills_dispose[of t] by simp
next
  case ImmediateRuns
  then show ?thesis using kills_dispose[of "t\<lparr>immediates := tl (immediates t)\<rparr>"]
    by (auto simp: immediate_runs_def kills_def split: list.splits immediate.splits)
next
  case KillTimeoutFires
  then show ?thesis
    by (auto simp: killTimeout_fires_def kills_def pty_kill_def split: list.splits option.splits)
qed (auto simp: write_inst_def resize_def onDataListener_def onExitListener_def errorHandler_def Let_def kills_def emit_def
     split: option.splits prod.splits notification.splits)

lemma inst_step_kills_active:
  "\<not> isDisposed (fst (inst_step e t)) \<Longrightarrow> kills SIGTERM (fst (inst_step e t)) = kills SIGTERM t"
proof (cases e)
  case ImmediateRuns
  assume "\<not> isDisposed (fst (inst_step e t))"
  with ImmediateRuns show ?thesis
    by (auto simp: immediate_runs_def kills_def split: list.splits immediate.splits if_splits)
next
  case KillTimeoutFires
  then show ?thesis
    by (auto simp: killTimeout_fires_def kills_def pty_kill_def split: list.splits option.splits)
qed (auto simp: write_inst_def resize_def onDataListener_def onExitListener_def errorHandler_def Let_def kills_def emit_def
     split: option.splits prod.splits notification.splits)

lemma inst_run_disposed: "isDisposed t \<Longrightarrow> isDisposed (inst_run es t)"
  by (induction es arbitrary: t) (simp_all add: inst_step_disposed)

lemma inst_run_kills:
  "kills SIGTERM (inst_run es t) \<le> kills SIGTERM t + (if isDisposed t then 0 else 1)"
proof (induction es arbitrary: t)
  case Nil
  show ?case by simp
next
  case (Cons e es)
  let ?t = "fst (inst_step e t)"
  show ?case
  proof (cases "isDisposed t")
    case True
    then have "isDisposed ?t" by (rule inst_step_disposed)
    with Cons[of ?t] inst_step_kills[of e t] True show ?thesis by simp
  next
    case False
    show ?thesis
    proof (cases "isDisposed ?t")
      case True
      with Cons[of ?t] inst_step_kills[of e t] show ?thesis by simp
    next
      case F2: False
      with Cons[of ?t] inst_step_kills_active[of e t] False show ?thesis by simp
    qed
  qed
qed

text \<open>
  Claim C8. On a disposed instance \<^verbatim>\<open>write(data)\<close> and \<^verbatim>\<open>resize(cols, rows)\<close> return
  normally, deliver no notification and leave the instance (dimensions, disposed flag,
  process handle and everything else) as it was.
\<close>

theorem disposed_write_resize_noop:
  "isDisposed t \<Longrightarrow> write_inst d t = (t, [], None) \<and> resize c r t = (t, [], None)"
  by (simp add: write_inst_def resize_def)

theorem disposed_write_resize_noop_witness:
  "isDisposed (dispose inst0)
   \<and> write_inst ''ls'' (dispose inst0) = (dispose inst0, [], None)
   \<and> resize 120 40 (dispose inst0) = (dispose inst0, [], None)"
  using disposed_write_resize_noop [of "dispose inst0" "''ls''" 120 40] by simp

text \<open>
  Claim C2. \<^verbatim>\<open>dispose()\<close> on a disposed instance is a no-op that delivers no
  notification (\<^verbatim>\<open>dispose\<close> never delivers one), a disposed instance stays disposed,
  and whatever happens to an instance, in any order and number (explicit
  \<^verbatim>\<open>dispose()\<close> calls, the \<^verbatim>\<open>setImmediate\<close> dispose after a process exit or after a broken
  stream, writes, process events, timers), the disposal sequence runs at most once:
  SIGTERM is sent at most once more, and not at all once the instance is disposed.
\<close>

theorem dispose_at_most_once:
  "(isDisposed t \<longrightarrow> inst_step CallDispose t = (t, [], None))
   \<and> snd (inst_step CallDispose t) = ([], None)
   \<and> (isDisposed t \<longrightarrow> isDisposed (inst_run es t))
   \<and> kills SIGTERM (inst_run es t) \<le> kills SIGTERM t + (if isDisposed t then 0 else 1)"
  by (simp add: dispose_disposed inst_run_disposed inst_run_kills)

theorem dispose_at_most_once_witness:
  "isDisposed (dispose inst0)
   \<and> inst_step CallDispose (dispose inst0) = (dispose inst0, [], None)
   \<and> isDisposed (inst_run [ImmediateRuns, CallDispose] (dispose inst0))
   \<and> kills SIGTERM (inst_run [ImmediateRuns, CallDispose] (dispose inst0))
       \<le> kills SIGTERM (dispose inst0)"
  using dispose_at_most_once [of "dispose inst0" "[ImmediateRuns, CallDispose]"] by simp




text \<open>
  Claim C1, on the code. The escalation timer is armed by \<^verbatim>\<open>dispose\<close> and nothing ever
  cancels it: after \<^verbatim>\<open>dispose()\<close> and the exit of the process the timer is still
  pending and no SIGKILL has been sent; when it fires, SIGKILL is sent to the process
  that has already exited. And when the SIGTERM call throws, SIGKILL is sent at once by
  the \<^verbatim>\<open>catch\<close> block and a second time by the timer.
\<close>

theorem escalation_timer_not_cancelled:
  "map_option exited (pty (inst_run [CallDispose, PtyExit 0 None] inst0)) = Some True
   \<and> kill_timeouts (inst_run [CallDispose, PtyExit 0 None] inst0) = [500]
   \<and> kills SIGKILL (inst_run [CallDispose, PtyExit 0 None] inst0) = 0
   \<and> kills SIGKILL (inst_run [CallDispose, PtyExit 0 None, KillTimeoutFires] inst0) = 1
   \<and> kills SIGKILL
        (inst_run [PtyBehaves None None [SIGTERM], CallDispose, KillTimeoutFires] inst0) = 2"
  by (simp add: inst0_def pty0_def TerminalInstance_def setupPtyListeners_def dispose_def
      kill_process_def pty_kill_def killTimeout_fires_def kills_def Let_def)

section \<open>Properties of TerminalService\<close>

lemma has_update [simp]:
  "has (s\<lparr>terminals := AList.update k v (terminals s)\<rparr>) i \<longleftrightarrow> i = k \<or> has s i"
  by (simp add: has_def update_conv')

lemma has_delete [simp]:
  "has (s\<lparr>terminals := AList.delete k (terminals s)\<rparr>) i \<longleftrightarrow> i \<noteq> k \<and> has s i"
  by (simp add: has_def delete_conv')

lemma createTerminal_cases:
  obtains (failed) e where
      "createTerminal w p d opts s =
         (s\<lparr>nextTerminalId := nextTerminalId s + 1,
            console_error := console_error s @ [(''Failed to create terminal:'', e)]\<rparr>, Inl e)"
    | (created) t dir where
      "tid t = nextTerminalId s" "\<not> isDisposed t" "listeners t" "handlers t"
      "\<exists>pr. pty t = Some pr \<and> onData_listener pr \<and> onExit_listener pr \<and> error_listener pr"
      "createTerminal w p d opts s =
         (s\<lparr>nextTerminalId := nextTerminalId s + 1,
            heap := heap s @ [t],
            terminals := AList.update (nextTerminalId s) (length (heap s)) (terminals s),
            emitted := emitted s @ [TerminalCreated (nextTerminalId s) (shellName t) dir]\<rparr>,
          Inr (length (heap s)))"
proof -
  define pn where "pn = default_param p JNull"
  define wd where "wd = js_or (default_param d JNull) (JStr (process_cwd w))"
  define options where "options = default_param opts (JObj [])"
  define profile where
    "profile = (if truthy pn then getShellByProfile w pn else Some (getDefaultShellProfile w))"
  define spawned where "spawned =
            (case get_prop options ''cols'' of
               Inl e \<Rightarrow> Inl e
             | Inr c \<Rightarrow>
                 (case get_prop options ''rows'' of
                    Inl e \<Rightarrow> Inl e
                  | Inr r \<Rightarrow>
                      (case get_prop options ''env'' of
                         Inl e \<Rightarrow> Inl e
                       | Inr env \<Rightarrow>
                           spawnShell w pn wd
                             \<lparr>so_cols = js_or c (JNum 80), so_rows = js_or r (JNum 30),
                              so_env = js_or env (process_env w), so_useConpty = True\<rparr>)))"
  show thesis
  proof (cases spawned)
    case (Inl e)
    then have "createTerminal w p d opts s =
         (s\<lparr>nextTerminalId := nextTerminalId s + 1,
            console_error := console_error s @ [(''Failed to create terminal:'', e)]\<rparr>, Inl e)"
      unfolding createTerminal_def Let_def spawned_def pn_def wd_def options_def by simp
    then show thesis by (rule failed)
  next
    case (Inr ptyProcess)
    define t where
      "t = (TerminalInstance (nextTerminalId s) (Some ptyProcess) profile wd)
             \<lparr>listeners := True, handlers := True\<rparr>"
    have "createTerminal w p d opts s =
         (s\<lparr>nextTerminalId := nextTerminalId s + 1,
            heap := heap s @ [t],
            terminals := AList.update (nextTerminalId s) (length (heap s)) (terminals s),
            emitted := emitted s @ [TerminalCreated (nextTerminalId s) (shellName t) wd]\<rparr>,
          Inr (length (heap s)))"
      using Inr unfolding createTerminal_def Let_def spawned_def pn_def wd_def options_def
        profile_def t_def service_emit_def
      by (simp add: shellName_def)
    moreover have "tid t = nextTerminalId s" "\<not> isDisposed t" "listeners t" "handlers t"
      "\<exists>pr. pty t = Some pr \<and> onData_listener pr \<and> onExit_listener pr \<and> error_listener pr"
      by (simp_all add: t_def TerminalInstance_def setupPtyListeners_def)
    ultimately show thesis by (rule created[rotated 5])
  qed
qed

lemma closeTerminal_cases:
  obtains (missing) "\<not> has s i" "closeTerminal i s = (s, False)"
    | (closed) a where "map_of (terminals s) i = Some a"
        "closeTerminal i s =
           (s\<lparr>heap := (heap s)[a := dispose (heap s ! a)],
              terminals := AList.delete i (terminals s),
              emitted := emitted s @ [TerminalClosed i]\<rparr>, True)"
  by (cases "map_of (terminals s) i")
     (auto simp: closeTerminal_def has_def Let_def service_emit_def)

lemma forward_cases:
  obtains (ignored) "\<not> has s i" "forward i n s = s\<lparr>terminals := AList.delete i (terminals s)\<rparr>"
    | (data) dd where "has s i" "n = Data dd" "forward i n s = s\<lparr>emitted := emitted s @ [TerminalData i dd]\<rparr>"
    | (error) e where "has s i" "n = Error e" "forward i n s = s\<lparr>emitted := emitted s @ [TerminalError i e]\<rparr>"
    | (exit) c sg where "has s i" "n = Exit c sg"
        "forward i n s = s\<lparr>emitted := emitted s @ [TerminalExit i c sg],
                            terminals := AList.delete i (terminals s)\<rparr>"
proof (cases "has s i")
  case True
  then show ?thesis
    by (cases n) (auto simp: dataHandler_def exitHandler_def errorForwarder_def service_emit_def Let_def
        intro: data error exit)
next
  case False
  then have "AList.delete i (terminals s) = terminals s"
    by (simp add: has_def map_of_eq_None_iff)
  with False have "forward i n s = s\<lparr>terminals := AList.delete i (terminals s)\<rparr>"
    by (cases n) (simp_all add: dataHandler_def exitHandler_def errorForwarder_def Let_def)
  with False show ?thesis by (rule ignored)
qed

lemma restore_entry_cases:
  obtains (null) e where "get_prop x ''shellProfile'' = Inl e"
        "restore_entry w x s =
           s\<lparr>console_error := console_error s @ [(''Failed to restore terminal:'', e)]\<rparr>"
    | (failed) p d opts s1 e where "createTerminal w p d opts s = (s1, Inl e)"
        "restore_entry w x s =
           s1\<lparr>console_error := console_error s1 @ [(''Failed to restore terminal:'', e)]\<rparr>"
    | (restored) p d opts s1 a where "createTerminal w p d opts s = (s1, Inr a)"
        "restore_entry w x s = s1"
proof (cases "get_prop x ''shellProfile''")
  case (Inl e)
  then have "restore_entry w x s =
           s\<lparr>console_error := console_error s @ [(''Failed to restore terminal:'', e)]\<rparr>"
    by (simp add: restore_entry_def)
  with Inl show ?thesis by (rule null)
next
  case (Inr p)
  then obtain d c r where g: "get_prop x ''cwd'' = Inr d" "get_prop x ''cols'' = Inr c"
      "get_prop x ''rows'' = Inr r"
    by (cases x) simp_all
  obtain s1 res where cr: "createTerminal w p d (JObj [(''cols'', c), (''rows'', r)]) s = (s1, res)"
    by (cases "createTerminal w p d (JObj [(''cols'', c), (''rows'', r)]) s") auto
  show ?thesis
  proof (cases res)
    case (Inl e)
    with cr Inr g show ?thesis by (intro failed[of p d _  s1 e]) (simp_all add: restore_entry_def)
  next
    case R: (Inr a)
    with cr Inr g show ?thesis by (intro restored[of p d _  s1 a]) (simp_all add: restore_entry_def)
  qed
qed

lemma restoreTerminals_cases:
  obtains (stopped) c where "fst (restoreTerminals w state s) = s\<lparr>config := c\<rparr>"
    | (entries) xs c where "get_prop state ''terminals'' = Inr (JArr xs)"
        "restoreTerminals w state s = (fold (restore_entry w) xs (s\<lparr>config := c\<rparr>), None)"
proof (cases "truthy state")
  case False
  then have "fst (restoreTerminals w state s) = s\<lparr>config := config s\<rparr>"
    by (simp add: restoreTerminals_def)
  then show ?thesis by (rule stopped)
next
  case True
  then obtain ts where ts: "get_prop state ''terminals'' = Inr ts"
    by (cases state) simp_all
  define s1 where "s1 = (case get_prop state ''config'' of
                         Inl e \<Rightarrow> s
                       | Inr c \<Rightarrow>
                           if truthy c then s\<lparr>config := spread (config s) (own_props c)\<rparr>
                           else s)"
  have s1: "s1 = s\<lparr>config := config s1\<rparr>"
    by (simp add: s1_def split: sum.splits)
  show ?thesis
  proof (cases "\<exists>xs. ts = JArr xs")
    case True
    then obtain xs where xs: "ts = JArr xs" by blast
    have "restoreTerminals w state s = (fold (restore_entry w) xs s1, None)"
      using \<open>truthy state\<close> ts xs by (simp add: restoreTerminals_def s1_def)
    with s1 have "restoreTerminals w state s
        = (fold (restore_entry w) xs (s\<lparr>config := config s1\<rparr>), None)"
      by simp
    with ts xs show ?thesis by (intro entries[of xs "config s1"]) simp_all
  next
    case False
    then have "fst (restoreTerminals w state s) = s1 \<or> fst (restoreTerminals w state s) = s"
      using \<open>truthy state\<close> ts
      by (cases ts) (simp_all add: restoreTerminals_def s1_def)
    then have "fst (restoreTerminals w state s) = s\<lparr>config := config s1\<rparr>
       \<or> fst (restoreTerminals w state s) = s\<lparr>config := config s\<rparr>"
      using s1 by simp
    then show ?thesis using stopped by blast
  qed
qed

lemma fold_invariant:
  assumes "\<And>x s. Q s \<Longrightarrow> Q (f x s)" "Q s"
  shows "Q (fold f xs s)"
  using assms(2) by (induction xs arbitrary: s) (simp_all add: assms(1))

lemma run_invariant:
  assumes create: "\<And>w p d opts s. Q s \<Longrightarrow> Q (fst (createTerminal w p d opts s))"
      and close: "\<And>i s. Q s \<Longrightarrow> Q (fst (closeTerminal i s))"
      and fwd: "\<And>i n s. Q s \<Longrightarrow> Q (forward i n s)"
      and inst: "\<And>a ev s. Q s \<Longrightarrow> a < length (heap s) \<Longrightarrow>
                   Q (s\<lparr>heap := (heap s)[a := fst (inst_step ev (heap s ! a))]\<rparr>)"
      and cfg: "\<And>c s. Q s \<Longrightarrow> Q (s\<lparr>config := c\<rparr>)"
      and con: "\<And>c s. Q s \<Longrightarrow> Q (s\<lparr>console_error := c\<rparr>)"
      and ev: "\<And>c s. Q s \<Longrightarrow> Q (s\<lparr>emitted := emitted s @ [ConfigChanged c]\<rparr>)"
      and init: "Q s"
  shows "Q (run es s)"
  using init
proof (induction es arbitrary: s)
  case Nil
  then show ?case by simp
next
  case (Cons e es)
  have "Q (step e s)"
  proof (cases e)
    case (CreateTerminal w p d opts)
    with Cons.prems show ?thesis by (simp add: create)
  next
    case (CloseTerminal i)
    with Cons.prems show ?thesis by (simp add: close)
  next
    case CloseAllTerminals
    have "Q (fold (\<lambda>i s'. fst (closeTerminal i s')) (map fst (terminals s)) s)"
      by (rule fold_invariant) (simp_all add: close Cons.prems)
    with CloseAllTerminals show ?thesis by (simp add: closeAllTerminals_def)
  next
    case (RestoreTerminals w state)
    have entry: "\<And>x s. Q s \<Longrightarrow> Q (restore_entry w x s)"
    proof -
      fix x s assume q: "Q s"
      show "Q (restore_entry w x s)"
      proof (cases rule: restore_entry_cases[of x w s])
        case (null e)
        then show ?thesis by (simp add: con q)
      next
        case (failed p d opts s1 e)
        with create[OF q, of w p d opts] show ?thesis by (simp add: con)
      next
        case (restored p d opts s1 a)
        with create[OF q, of w p d opts] show ?thesis by simp
      qed
    qed
    have "Q (fst (restoreTerminals w state s))"
    proof (cases rule: restoreTerminals_cases[of w state s])
      case (stopped c)
      then show ?thesis by (simp add: cfg Cons.prems)
    next
      case (entries xs c)
      have "Q (fold (restore_entry w) xs (s\<lparr>config := c\<rparr>))"
        by (rule fold_invariant[where Q = Q]) (simp_all add: entry cfg Cons.prems)
      with entries show ?thesis by simp
    qed
    with RestoreTerminals show ?thesis by simp
  next
    case (UpdateConfig u)
    with Cons.prems show ?thesis
      using ev[OF cfg[OF Cons.prems]] by (simp add: updateConfig_def Let_def service_emit_def)
  next
    case (Instance a ev)
    show ?thesis
    proof (cases "a < length (heap s)")
      case True
      obtain t1 ns th where st: "inst_step ev (heap s ! a) = (t1, ns, th)"
        by (cases "inst_step ev (heap s ! a)") auto
      have "Q (s\<lparr>heap := (heap s)[a := t1]\<rparr>)"
        using inst[OF Cons.prems True, of ev] st by simp
      then have "Q (fold (forward (tid t1)) ns (s\<lparr>heap := (heap s)[a := t1]\<rparr>))"
        by (rule fold_invariant[rotated]) (rule fwd)
      with Instance True st show ?thesis by (simp add: instance_event_def)
    next
      case False
      with Instance Cons.prems show ?thesis by (simp add: instance_event_def)
    qed
  qed
  then show ?case using Cons.IH by simp
qed

lemma created_ids_append [simp]: "created_ids (xs @ ys) = created_ids xs @ created_ids ys"
  by (induction xs rule: created_ids.induct) simp_all

lemma exit_events_append [simp]: "exit_events i (xs @ ys) = exit_events i xs @ exit_events i ys"
  by (induction i xs rule: exit_events.induct) simp_all

lemma data_events_append [simp]: "data_events i (xs @ ys) = data_events i xs @ data_events i ys"
  by (induction i xs rule: data_events.induct) simp_all

lemma map_tid_update:
  "tid y = tid (xs ! a) \<Longrightarrow> map tid (xs[a := y]) = map tid xs"
  by (cases "a < length xs") (simp_all add: map_update list_update_same_conv list_update_beyond)

lemma tid_nth_update:
  "tid y = tid (xs ! a) \<Longrightarrow> tid (xs[a := y] ! k) = tid (xs ! k)"
  by (cases "a < length xs") (auto simp: nth_list_update list_update_beyond)

lemma tid_update_bound:
  assumes "\<forall>t \<in> set xs. tid t < n" "tid y = tid (xs ! a)"
  shows "\<forall>t \<in> set (xs[a := y]). tid t < n"
proof (cases "a < length xs")
  case True
  then have "tid y < n" using assms by simp
  then show ?thesis using assms(1) set_update_subset_insert[of xs a y] by auto
next
  case False
  then show ?thesis using assms(1) by (simp add: list_update_beyond)
qed

lemma ids_inv_run: "ids_inv s \<Longrightarrow> ids_inv (run es s)"
proof (rule run_invariant[where Q = ids_inv])
  fix w p d opts s assume q: "ids_inv s"
  show "ids_inv (fst (createTerminal w p d opts s))"
  proof (cases rule: createTerminal_cases[of w p d opts s])
    case (failed e)
    with q show ?thesis by (auto simp: ids_inv_def)
  next
    case (created t dir)
    with q show ?thesis by (auto simp: ids_inv_def sorted_wrt_append)
  qed
next
  fix i s assume q: "ids_inv s"
  show "ids_inv (fst (closeTerminal i s))"
  proof (cases rule: closeTerminal_cases[of s i])
    case missing
    with q show ?thesis by simp
  next
    case (closed a)
    with q show ?thesis
      using tid_update_bound[of "heap s" "nextTerminalId s" "dispose (heap s ! a)" a]
      by (simp add: ids_inv_def map_tid_update)
  qed
next
  fix i n s assume q: "ids_inv s"
  show "ids_inv (forward i n s)"
    using q by (cases rule: forward_cases[of s i n]) (simp_all add: ids_inv_def)
next
  fix a ev s assume q: "ids_inv s" and "a < length (heap s)"
  show "ids_inv (s\<lparr>heap := (heap s)[a := fst (inst_step ev (heap s ! a))]\<rparr>)"
    using q tid_update_bound[of "heap s" "nextTerminalId s" "fst (inst_step ev (heap s ! a))" a]
    by (simp add: ids_inv_def map_tid_update inst_step_tid)
qed (simp_all add: ids_inv_def)

lemma ids_inv_init: "ids_inv TerminalService"
  by (simp add: ids_inv_def TerminalService_def)

lemma keys_below_run: "keys_below s \<Longrightarrow> keys_below (run es s)"
proof (rule run_invariant[where Q = keys_below])
  fix w p d opts s assume q: "keys_below s"
  show "keys_below (fst (createTerminal w p d opts s))"
  proof (cases rule: createTerminal_cases[of w p d opts s])
    case (failed e)
    with q show ?thesis by (auto simp: keys_below_def has_def less_Suc_eq)
  next
    case (created t dir)
    with q show ?thesis by (auto simp: keys_below_def has_def update_conv' less_Suc_eq)
  qed
next
  fix i s assume q: "keys_below s"
  show "keys_below (fst (closeTerminal i s))"
    using q by (cases rule: closeTerminal_cases[of s i]) (auto simp: keys_below_def has_def delete_conv')
next
  fix i n s assume q: "keys_below s"
  show "keys_below (forward i n s)"
    using q by (cases rule: forward_cases[of s i n]) (auto simp: keys_below_def has_def delete_conv')
qed (simp_all add: keys_below_def has_def)

lemma exit_inv_run: "exit_inv i s \<Longrightarrow> exit_inv i (run es s)"
proof (rule run_invariant[where Q = "exit_inv i"])
  fix w p d opts s assume q: "exit_inv i s"
  show "exit_inv i (fst (createTerminal w p d opts s))"
  proof (cases rule: createTerminal_cases[of w p d opts s])
    case (failed e)
    with q show ?thesis by (auto simp: exit_inv_def has_def)
  next
    case (created t dir)
    with q show ?thesis by (auto simp: exit_inv_def has_def update_conv')
  qed
next
  fix j s assume q: "exit_inv i s"
  show "exit_inv i (fst (closeTerminal j s))"
    using q by (cases rule: closeTerminal_cases[of s j]) (auto simp: exit_inv_def has_def delete_conv')
next
  fix j n s assume q: "exit_inv i s"
  show "exit_inv i (forward j n s)"
    using q by (cases rule: forward_cases[of s j n]) (auto simp: exit_inv_def has_def delete_conv')
qed (simp_all add: exit_inv_def has_def)

lemma retired_run: "retired i xs ds s \<Longrightarrow> retired i xs ds (run es s)"
proof (rule run_invariant[where Q = "retired i xs ds"])
  fix w p d opts s assume q: "retired i xs ds s"
  show "retired i xs ds (fst (createTerminal w p d opts s))"
  proof (cases rule: createTerminal_cases[of w p d opts s])
    case (failed e)
    with q show ?thesis by (auto simp: retired_def has_def)
  next
    case (created t dir)
    with q show ?thesis by (auto simp: retired_def has_def update_conv')
  qed
next
  fix j s assume q: "retired i xs ds s"
  show "retired i xs ds (fst (closeTerminal j s))"
    using q by (cases rule: closeTerminal_cases[of s j]) (auto simp: retired_def has_def delete_conv')
next
  fix j n s assume q: "retired i xs ds s"
  show "retired i xs ds (forward j n s)"
    using q by (cases rule: forward_cases[of s j n]) (auto simp: retired_def has_def delete_conv')
qed (simp_all add: retired_def has_def)

lemma attached_dispose: "attached (dispose t)"
  by (simp add: attached_def)

lemma inst_step_attached: "attached t \<Longrightarrow> attached (fst (inst_step ev t))"
proof (cases "isDisposed (fst (inst_step ev t))")
  case True
  then show ?thesis by (simp add: attached_def)
next
  case False
  assume a: "attached t"
  from False have nd: "\<not> isDisposed t" using inst_step_disposed[of t ev] by blast
  with a obtain p where p: "listeners t" "pty t = Some p" "onData_listener p" "onExit_listener p"
      "error_listener p"
    by (auto simp: attached_def)
  show ?thesis
  proof (cases ev)
    case ImmediateRuns
    with False nd p show ?thesis
      by (auto simp: attached_def immediate_runs_def split: list.splits immediate.splits if_splits)
  next
    case KillTimeoutFires
    with nd p show ?thesis
      by (auto simp: attached_def killTimeout_fires_def pty_kill_def split: list.splits)
  next
    case CallDispose
    with False show ?thesis by simp
  qed (use nd p in \<open>auto simp: attached_def write_inst_def resize_def onDataListener_def
        onExitListener_def errorHandler_def Let_def emit_def split: option.splits\<close>)
qed

lemma registry_inv_run: "registry_inv s \<Longrightarrow> registry_inv (run es s)"
proof (rule run_invariant[where Q = registry_inv])
  fix w p d opts s assume q: "registry_inv s"
  show "registry_inv (fst (createTerminal w p d opts s))"
  proof (cases rule: createTerminal_cases[of w p d opts s])
    case (failed e)
    with q show ?thesis by (auto simp: registry_inv_def)
  next
    case (created t dir)
    from created(2,3,5) have "attached t" by (auto simp: attached_def)
    with created(1,6) q show ?thesis
      by (fastforce simp: registry_inv_def update_conv' nth_append less_Suc_eq)
  qed
next
  fix j s assume q: "registry_inv s"
  show "registry_inv (fst (closeTerminal j s))"
  proof (cases rule: closeTerminal_cases[of s j])
    case missing
    with q show ?thesis by simp
  next
    case (closed a)
    have "\<forall>t \<in> set ((heap s)[a := dispose (heap s ! a)]). attached t"
      using q set_update_subset_insert[of "heap s" a "dispose (heap s ! a)"]
      by (auto simp: registry_inv_def attached_dispose)
    with closed q show ?thesis
      by (auto simp: registry_inv_def delete_conv' tid_nth_update split: if_splits)
  qed
next
  fix j n s assume q: "registry_inv s"
  show "registry_inv (forward j n s)"
    using q by (cases rule: forward_cases[of s j n])
      (auto simp: registry_inv_def delete_conv' split: if_splits)
next
  fix a ev s assume q: "registry_inv s" and a: "a < length (heap s)"
  let ?t = "fst (inst_step ev (heap s ! a))"
  have "attached ?t" using q a by (auto simp: registry_inv_def intro: inst_step_attached)
  then have "\<forall>t \<in> set ((heap s)[a := ?t]). attached t"
    using q set_update_subset_insert[of "heap s" a ?t] by (auto simp: registry_inv_def)
  with q show "registry_inv (s\<lparr>heap := (heap s)[a := ?t]\<rparr>)"
    by (auto simp: registry_inv_def tid_nth_update inst_step_tid)
qed (simp_all add: registry_inv_def)

lemma init_invariants:
  "keys_below TerminalService" "exit_inv i TerminalService" "registry_inv TerminalService"
  by (simp_all add: keys_below_def exit_inv_def registry_inv_def TerminalService_def has_def)

text \<open>
  Claim C7. Whatever happens to a service from its construction on (creations, failed
  creations, closings, restorations, process events), the ids of the instances it has
  created, in creation order, are the ids announced by \<^verbatim>\<open>terminal-created\<close>, they
  increase strictly and are pairwise distinct: no id is assigned twice, also after its
  terminal was closed.
\<close>

theorem ids_strictly_increasing:
  "created_ids (emitted (run es TerminalService)) = map tid (heap (run es TerminalService))
   \<and> sorted_wrt (<) (map tid (heap (run es TerminalService)))
   \<and> distinct (map tid (heap (run es TerminalService)))"
  using ids_inv_run[OF ids_inv_init, of es] strict_sorted_iff[of "map tid (heap (run es TerminalService))"]
  by (simp add: ids_inv_def)

lemma reachable_invariants:
  "keys_below (run es TerminalService)" "exit_inv i (run es TerminalService)"
  "registry_inv (run es TerminalService)"
  by (simp_all add: keys_below_run exit_inv_run registry_inv_run init_invariants)

lemma natural_exit:
  assumes reg: "registry_inv s" and ex: "exit_inv i s"
      and a: "map_of (terminals s) i = Some a" and nd: "\<not> isDisposed (heap s ! a)"
  shows "emitted (step (Instance a (PtyExit c sg)) s) = emitted s @ [TerminalExit i c sg]
         \<and> \<not> has (step (Instance a (PtyExit c sg)) s) i
         \<and> exit_events i (emitted (step (Instance a (PtyExit c sg)) s)) = [TerminalExit i c sg]"
proof -
  from reg a have len: "a < length (heap s)" and tid: "tid (heap s ! a) = i"
    and "attached (heap s ! a)"
    by (auto simp: registry_inv_def)
  with nd obtain p where p: "listeners (heap s ! a)" "pty (heap s ! a) = Some p" "onExit_listener p"
    by (auto simp: attached_def)
  from a have h: "has s i" by (simp add: has_def)
  with ex have e0: "exit_events i (emitted s) = []" by (simp add: exit_inv_def)
  define t1 where "t1 = (heap s ! a)\<lparr>pty := Some (p\<lparr>exited := True\<rparr>),
      immediates := immediates (heap s ! a) @ [DisposeCallback]\<rparr>"
  have st: "inst_step (PtyExit c sg) (heap s ! a) = (t1, [Exit c sg], None)"
    using p nd by (simp add: onExitListener_def emit_def t1_def Let_def)
  have "tid t1 = i" using tid by (simp add: t1_def)
  then have "step (Instance a (PtyExit c sg)) s
     = exitHandler i c sg (s\<lparr>heap := (heap s)[a := t1]\<rparr>)"
    using len st by (simp add: instance_event_def)
  then show ?thesis using h e0
    by (simp add: exitHandler_def Let_def has_def service_emit_def delete_conv')
qed

lemma closed_is_retired:
  assumes kb: "keys_below s" and a: "map_of (terminals s) i = Some a"
  shows "retired i (exit_events i (emitted s)) (data_events i (emitted s)) (fst (closeTerminal i s))"
  using assms
  by (cases rule: closeTerminal_cases[of s i])
     (auto simp: retired_def has_def keys_below_def delete_conv')

lemma service1_eq:
  "service1 =
     \<lparr>terminals = [(1, 0)], nextTerminalId = 2, config = loadConfig,
      heap = [inst0\<lparr>shellProfile := Some bash, listeners := True, handlers := True\<rparr>],
      emitted = [TerminalCreated 1 ''Bash'' (JStr ''/home/u'')], console_error = []\<rparr>"
  by (simp add: service1_def Create0_def createTerminal_def TerminalService_def world0_def
      default_param_def js_or_def getDefaultShellProfile_def spawnShell_def bash_def Let_def
      service_emit_def inst0_def TerminalInstance_def setupPtyListeners_def shellName_def)

lemma inst0_fields:
  "\<not> isDisposed inst0" "tid inst0 = 1"
  "pty inst0 = Some (pty0\<lparr>onData_listener := True, onExit_listener := True,
                          error_listener := True\<rparr>)"
  "disposables inst0 = [OnDataListener, OnExitListener, ErrorHandlerRemover]"
  "kill_timeouts inst0 = []" "immediates inst0 = []" "\<not> listeners inst0" "\<not> handlers inst0"
  by (simp_all add: inst0_def TerminalInstance_def setupPtyListeners_def)

text \<open>
  Claim C3, as the code has it. After \<^verbatim>\<open>createTerminal\<close>, \<^verbatim>\<open>closeTerminal(1)\<close> and the
  exit of the process, the service has emitted \<^verbatim>\<open>terminal-created\<close> and
  \<^verbatim>\<open>terminal-closed\<close> and no \<^verbatim>\<open>terminal-exit\<close> for id 1: \<^verbatim>\<open>dispose\<close> has set
  \<^verbatim>\<open>_isDisposed\<close>, removed the forwarders and unsubscribed the exit listener before
  the process exits.
\<close>

theorem close_then_exit_emits_no_terminal_exit:
  "has service1 1
   \<and> \<not> has (run [CloseTerminal 1] service1) 1
   \<and> emitted (run [CloseTerminal 1, Instance 0 (PtyExit 0 None)] service1)
       = [TerminalCreated 1 ''Bash'' (JStr ''/home/u''), TerminalClosed 1]
   \<and> exit_events 1 (emitted (run [CloseTerminal 1, Instance 0 (PtyExit 0 None)] service1)) = []"
  by (simp add: service1_eq closeTerminal_def has_def Let_def service_emit_def
      instance_event_def inst0_fields dispose_def kill_process_def pty_kill_def pty0_def)

text \<open>
  Claim C3, amended. In every state the service can reach, \<^verbatim>\<open>terminal-exit\<close> has been
  emitted at most once for each id. When the process of a registered, non-disposed
  terminal exits, \<^verbatim>\<open>terminal-exit\<close> is emitted for its id, for the first and only time,
  and the id leaves the registry. When a registered terminal is closed by
  \<^verbatim>\<open>closeTerminal\<close>, no \<^verbatim>\<open>terminal-exit\<close> is emitted for its id, whatever happens
  afterwards.
\<close>

theorem terminal_exit_at_most_once:
  assumes "s = run es0 TerminalService"
  shows "length (exit_events i (emitted s)) \<le> 1
    \<and> (\<forall>a. map_of (terminals s) i = Some a \<and> \<not> isDisposed (heap s ! a) \<longrightarrow>
          emitted (step (Instance a (PtyExit c sg)) s) = emitted s @ [TerminalExit i c sg]
          \<and> \<not> has (step (Instance a (PtyExit c sg)) s) i
          \<and> exit_events i (emitted (step (Instance a (PtyExit c sg)) s)) = [TerminalExit i c sg])
    \<and> (has s i \<longrightarrow> exit_events i (emitted (run es (fst (closeTerminal i s)))) = [])"
proof -
  have inv: "keys_below s" "exit_inv i s" "registry_inv s"
    using assms reachable_invariants by simp_all
  have 1: "length (exit_events i (emitted s)) \<le> 1"
    using inv(2) by (simp add: exit_inv_def)
  have 2: "\<forall>a. map_of (terminals s) i = Some a \<and> \<not> isDisposed (heap s ! a) \<longrightarrow>
          emitted (step (Instance a (PtyExit c sg)) s) = emitted s @ [TerminalExit i c sg]
          \<and> \<not> has (step (Instance a (PtyExit c sg)) s) i
          \<and> exit_events i (emitted (step (Instance a (PtyExit c sg)) s)) = [TerminalExit i c sg]"
    using natural_exit[OF inv(3) inv(2)] by blast
  have 3: "has s i \<longrightarrow> exit_events i (emitted (run es (fst (closeTerminal i s)))) = []"
  proof
    assume h: "has s i"
    then obtain a where a: "map_of (terminals s) i = Some a" by (auto simp: has_def)
    from h inv(2) have e0: "exit_events i (emitted s) = []" by (simp add: exit_inv_def)
    from closed_is_retired[OF inv(1) a]
    have "retired i [] (data_events i (emitted s)) (run es (fst (closeTerminal i s)))"
      unfolding e0 by (rule retired_run)
    then show "exit_events i (emitted (run es (fst (closeTerminal i s)))) = []"
      by (simp add: retired_def)
  qed
  from 1 2 3 show ?thesis by blast
qed

theorem terminal_exit_at_most_once_witness:
  "service1 = run [Create0] TerminalService
   \<and> map_of (terminals service1) 1 = Some 0 \<and> \<not> isDisposed (heap service1 ! 0)
   \<and> length (exit_events 1 (emitted service1)) \<le> 1
   \<and> exit_events 1 (emitted (step (Instance 0 (PtyExit 0 None)) service1))
       = [TerminalExit 1 0 None]
   \<and> exit_events 1
        (emitted (run [Instance 0 (PtyExit 0 None)] (fst (closeTerminal 1 service1)))) = []"
proof -
  have a: "map_of (terminals service1) 1 = Some 0"
    and b: "\<not> isDisposed (heap service1 ! 0)"
    and c: "has service1 1"
    by (simp_all add: service1_eq has_def inst0_fields)
  show ?thesis
    using terminal_exit_at_most_once [OF service1_def, of 1 0 None
        "[Instance 0 (PtyExit 0 None)]"] a b c service1_def
    by blast
qed

text \<open>
  Claim C4. In every state the service can reach, \<^verbatim>\<open>closeTerminal(id)\<close> returns false
  and changes nothing for an unregistered id; for a registered id it returns true, has
  called \<^verbatim>\<open>dispose\<close> on the instance and removed the id from the registry when it
  returns, and from then on, whatever happens, \<^verbatim>\<open>getTerminal(id)\<close> finds nothing and no
  further \<^verbatim>\<open>terminal-data\<close> event for the id is emitted.
\<close>

theorem closeTerminal_removes_synchronously:
  assumes "s = run es0 TerminalService"
  shows "(map_of (terminals s) i = None \<longrightarrow> closeTerminal i s = (s, False))
    \<and> (\<forall>a. map_of (terminals s) i = Some a \<longrightarrow>
          snd (closeTerminal i s) = True
          \<and> heap (fst (closeTerminal i s)) = (heap s)[a := dispose (heap s ! a)]
          \<and> isDisposed (heap (fst (closeTerminal i s)) ! a)
          \<and> getTerminal i (fst (closeTerminal i s)) = None
          \<and> getTerminal i (run es (fst (closeTerminal i s))) = None
          \<and> data_events i (emitted (run es (fst (closeTerminal i s))))
              = data_events i (emitted s))"
proof -
  have inv: "keys_below s" "registry_inv s"
    using assms reachable_invariants by simp_all
  have 1: "map_of (terminals s) i = None \<longrightarrow> closeTerminal i s = (s, False)"
    by (simp add: closeTerminal_def)
  have 2: "snd (closeTerminal i s) = True
          \<and> heap (fst (closeTerminal i s)) = (heap s)[a := dispose (heap s ! a)]
          \<and> isDisposed (heap (fst (closeTerminal i s)) ! a)
          \<and> getTerminal i (fst (closeTerminal i s)) = None
          \<and> getTerminal i (run es (fst (closeTerminal i s))) = None
          \<and> data_events i (emitted (run es (fst (closeTerminal i s))))
              = data_events i (emitted s)"
    if a: "map_of (terminals s) i = Some a" for a
  proof -
    from inv(2) a have len: "a < length (heap s)" by (simp add: registry_inv_def)
    have cl: "closeTerminal i s =
           (s\<lparr>heap := (heap s)[a := dispose (heap s ! a)],
              terminals := AList.delete i (terminals s),
              emitted := emitted s @ [TerminalClosed i]\<rparr>, True)"
      using a by (simp add: closeTerminal_def Let_def service_emit_def)
    have r: "retired i (exit_events i (emitted s)) (data_events i (emitted s))
               (run es' (fst (closeTerminal i s)))" for es'
      using closed_is_retired[OF inv(1) a] by (rule retired_run)
    have g: "getTerminal i (run es' (fst (closeTerminal i s))) = None" for es'
      using r[of es'] by (simp add: retired_def getTerminal_def has_def)
    show ?thesis
      using cl len g[of es] g[of "[]"] r[of es] by (simp add: retired_def)
  qed
  from 1 2 show ?thesis by blast
qed

theorem closeTerminal_removes_synchronously_witness:
  "service1 = run [Create0] TerminalService
   \<and> map_of (terminals service1) 1 = Some 0 \<and> map_of (terminals service1) 2 = None
   \<and> closeTerminal 2 service1 = (service1, False)
   \<and> snd (closeTerminal 1 service1) = True
   \<and> getTerminal 1 (fst (closeTerminal 1 service1)) = None
   \<and> data_events 1
        (emitted (run [Instance 0 (PtyData ''late'')] (fst (closeTerminal 1 service1))))
       = data_events 1 (emitted service1)"
proof -
  have a: "map_of (terminals service1) 1 = Some 0"
    and b: "map_of (terminals service1) 2 = None"
    by (simp_all add: service1_eq)
  show ?thesis
    using closeTerminal_removes_synchronously [OF service1_def, of 2]
      closeTerminal_removes_synchronously [OF service1_def, of 1
        "[Instance 0 (PtyData ''late'')]"] a b service1_def
    by blast
qed

lemma createTerminal_result:
  assumes "createTerminal w p d opts s = (s1, r)"
  shows "nextTerminalId s1 = nextTerminalId s + 1
    \<and> (\<forall>e. r = Inl e \<longrightarrow>
          s1 = s\<lparr>nextTerminalId := nextTerminalId s + 1,
                 console_error := console_error s @ [(''Failed to create terminal:'', e)]\<rparr>)
    \<and> (\<forall>a. r = Inr a \<longrightarrow>
          a = length (heap s) \<and> tid (heap s1 ! a) = nextTerminalId s
          \<and> terminals s1 = AList.update (nextTerminalId s) a (terminals s)
          \<and> console_error s1 = console_error s)"
  using assms by (cases rule: createTerminal_cases[of w p d opts s]) auto

lemma spawnShell_throws:
  "\<forall>sh ar po. pty_spawn w sh ar po = Inl e \<Longrightarrow> spawnShell w p d so = Inl e"
  by (simp add: spawnShell_def Let_def)

text \<open>
  Claim C10. When every \<^verbatim>\<open>pty.spawn\<close> throws (and the options argument is not
  \<^verbatim>\<open>null\<close>, which would throw before the spawn), \<^verbatim>\<open>createTerminal\<close> rethrows that error
  and leaves the service as it was except for the id counter, which has been
  incremented, and the error log: the registry has no new entry. The failed call has
  consumed an id: when the creation before it succeeded with some id, the next
  successful creation gets that id plus two.
\<close>

theorem spawn_failure_consumes_id:
  assumes "\<forall>sh ar po. pty_spawn w sh ar po = Inl e" and "opts \<noteq> JNull"
  shows "createTerminal w p d opts s =
           (s\<lparr>nextTerminalId := nextTerminalId s + 1,
              console_error := console_error s @ [(''Failed to create terminal:'', e)]\<rparr>, Inl e)
    \<and> terminals (fst (createTerminal w p d opts s)) = terminals s
    \<and> (createTerminal wa pa da oa sa = (s, Inr aa) \<longrightarrow>
        createTerminal wb pb db ob (fst (createTerminal w p d opts s)) = (sb, Inr ab) \<longrightarrow>
          tid (heap sb ! ab) = tid (heap s ! aa) + 2)"
proof -
  have "\<exists>v. get_prop (default_param opts (JObj [])) k = Inr v" for k
    using assms(2) by (cases opts) (simp_all add: default_param_def)
  then obtain c r env where g: "get_prop (default_param opts (JObj [])) ''cols'' = Inr c"
    "get_prop (default_param opts (JObj [])) ''rows'' = Inr r"
    "get_prop (default_param opts (JObj [])) ''env'' = Inr env"
    by metis
  have 1: "createTerminal w p d opts s =
           (s\<lparr>nextTerminalId := nextTerminalId s + 1,
              console_error := console_error s @ [(''Failed to create terminal:'', e)]\<rparr>, Inl e)"
    by (simp add: createTerminal_def Let_def g spawnShell_throws[OF assms(1)])
  have 3: "tid (heap sb ! ab) = tid (heap s ! aa) + 2"
    if a: "createTerminal wa pa da oa sa = (s, Inr aa)"
      and b: "createTerminal wb pb db ob (fst (createTerminal w p d opts s)) = (sb, Inr ab)"
  proof -
    from createTerminal_result[OF a]
    have A: "nextTerminalId s = nextTerminalId sa + 1" "tid (heap s ! aa) = nextTerminalId sa"
      by auto
    from createTerminal_result[OF b[unfolded 1 fst_conv]]
    have "tid (heap sb ! ab) = nextTerminalId s + 1" by auto
    with A show ?thesis by simp
  qed
  from 1 3 show ?thesis by simp
qed

lemma world_fail_spawn: "\<forall>sh ar po. pty_spawn world_fail sh ar po = Inl spawn_error"
  by (simp add: world_fail_def)

lemma Create0_result:
  "createTerminal world0 JNull (JStr ''/home/u'') JUndef s =
     (s\<lparr>nextTerminalId := nextTerminalId s + 1,
        heap := heap s @ [(TerminalInstance (nextTerminalId s) (Some pty0) (Some bash)
                            (JStr ''/home/u''))\<lparr>listeners := True, handlers := True\<rparr>],
        terminals := AList.update (nextTerminalId s) (length (heap s)) (terminals s),
        emitted := emitted s @ [TerminalCreated (nextTerminalId s) ''Bash'' (JStr ''/home/u'')]\<rparr>,
      Inr (length (heap s)))"
  by (simp add: createTerminal_def world0_def default_param_def js_or_def
      getDefaultShellProfile_def spawnShell_def bash_def Let_def service_emit_def shellName_def
      TerminalInstance_def setupPtyListeners_def)

theorem spawn_failure_consumes_id_witness:
  "(\<forall>sh ar po. pty_spawn world_fail sh ar po = Inl spawn_error) \<and> JUndef \<noteq> JNull
   \<and> createTerminal world0 JNull (JStr ''/home/u'') JUndef TerminalService = (service1, Inr 0)
   \<and> createTerminal world_fail JNull (JStr ''/home/u'') JUndef service1 =
        (service1\<lparr>nextTerminalId := 3,
           console_error := [(''Failed to create terminal:'', spawn_error)]\<rparr>,
         Inl spawn_error)
   \<and> snd (createTerminal world0 JNull (JStr ''/home/u'') JUndef
             (fst (createTerminal world_fail JNull (JStr ''/home/u'') JUndef service1))) = Inr 1
   \<and> tid (heap (fst (createTerminal world0 JNull (JStr ''/home/u'') JUndef
             (fst (createTerminal world_fail JNull (JStr ''/home/u'') JUndef service1)))) ! 1)
       = tid (heap service1 ! 0) + 2"
proof -
  let ?failed = "fst (createTerminal world_fail JNull (JStr ''/home/u'') JUndef service1)"
  let ?next = "createTerminal world0 JNull (JStr ''/home/u'') JUndef ?failed"
  have a: "createTerminal world0 JNull (JStr ''/home/u'') JUndef TerminalService = (service1, Inr 0)"
    by (simp add: service1_def Create0_def Create0_result TerminalService_def)
  note T = spawn_failure_consumes_id [OF world_fail_spawn, of JUndef JNull "JStr ''/home/u''" service1,
        where wa = world0 and pa = JNull and da = "JStr ''/home/u''" and oa = JUndef
          and sa = TerminalService and aa = 0
          and wb = world0 and pb = JNull and db = "JStr ''/home/u''" and ob = JUndef
          and sb = "fst ?next" and ab = 1]
  have c1: "createTerminal world_fail JNull (JStr ''/home/u'') JUndef service1 =
        (service1\<lparr>nextTerminalId := 3,
           console_error := [(''Failed to create terminal:'', spawn_error)]\<rparr>,
         Inl spawn_error)"
    using T by (simp add: service1_eq)
  have "heap ?failed = heap service1"
    by (simp add: c1)
  moreover have "length (heap service1) = 1"
    by (simp add: service1_eq)
  ultimately have b: "snd ?next = Inr 1"
    by (simp add: Create0_result)
  then have "?next = (fst ?next, Inr 1)"
    by (metis prod.collapse)
  with T a have c3: "tid (heap (fst ?next) ! 1) = tid (heap service1 ! 0) + 2"
    by blast
  show ?thesis
    by (intro conjI world_fail_spawn a c1 b c3) simp
qed

text \<open>
  Claim C5, as the code has it. The descriptor that \<^verbatim>\<open>getState\<close> returns has five
  properties, the first of which is the id, and the profile name is stored under
  \<^verbatim>\<open>shellProfile\<close>, not \<^verbatim>\<open>shellProfileName\<close>.
\<close>

theorem getState_includes_id:
  "keys_of (getState inst0) = [''id'', ''shellProfile'', ''cwd'', ''cols'', ''rows'']
   \<and> keys_of (getState inst0) \<noteq> [''shellProfileName'', ''cwd'', ''cols'', ''rows'']
   \<and> get_prop (getState inst0) ''id'' = Inr (JNum 1)"
  by (simp add: getState_def inst0_fields)

text \<open>
  Claim C5, amended. The descriptor has exactly the shape
  \<^verbatim>\<open>{id, shellProfile, cwd, cols, rows}\<close>: the terminal's id, the name of its shell profile
  (\<^verbatim>\<open>null\<close> without a profile or with an empty name), its working directory and its stored
  dimensions. The snapshot is \<^verbatim>\<open>{terminals: [descriptor, ...], config: {...}}\<close> with the
  descriptors of the registered terminals in registry order and the service's
  configuration.
\<close>

theorem snapshot_shape:
  "keys_of (getState t) = [''id'', ''shellProfile'', ''cwd'', ''cols'', ''rows'']
   \<and> get_prop (getState t) ''id'' = Inr (JNum (int (tid t)))
   \<and> get_prop (getState t) ''shellProfile''
       = Inr (case shellProfile t of
                None \<Rightarrow> JNull
              | Some sp \<Rightarrow> if name sp = [] then JNull else JStr (name sp))
   \<and> get_prop (getState t) ''cwd'' = Inr (cwd t)
   \<and> get_prop (getState t) ''cols'' = Inr (JNum (cols t))
   \<and> get_prop (getState t) ''rows'' = Inr (JNum (rows t))
   \<and> getTerminalState s
       = JObj [(''terminals'', JArr (map (\<lambda>(i, a). getState (heap s ! a)) (terminals s))),
               (''config'', JObj (config s))]"
  by (simp add: getState_def getTerminalState_def getAllTerminals_def js_or_def
      split: option.splits prod.splits)

lemma update_fresh: "map_of al k = None \<Longrightarrow> AList.update k v al = al @ [(k, v)]"
  by (induction al) auto

lemma restore_failures_simps [simp]:
  "restore_failures (s\<lparr>nextTerminalId := n\<rparr>) = restore_failures s"
  "restore_failures (s\<lparr>heap := h\<rparr>) = restore_failures s"
  "restore_failures (s\<lparr>terminals := ts\<rparr>) = restore_failures s"
  "restore_failures (s\<lparr>emitted := evs\<rparr>) = restore_failures s"
  "restore_failures (s\<lparr>config := c\<rparr>) = restore_failures s"
  by (simp_all add: restore_failures_def)

lemma restore_entry_keys_below: "keys_below s \<Longrightarrow> keys_below (restore_entry w x s)"
proof -
  assume kb: "keys_below s"
  have c: "keys_below (fst (createTerminal w p d opts s))" for p d opts
    using keys_below_run[OF kb, of "[CreateTerminal w p d opts]"] by simp
  show ?thesis
  proof (cases rule: restore_entry_cases[of x w s])
    case (null e)
    with kb show ?thesis by (simp add: keys_below_def has_def)
  next
    case (failed p d opts s1 e)
    with c[of p d opts] show ?thesis by (simp add: keys_below_def has_def)
  next
    case (restored p d opts s1 a)
    with c[of p d opts] show ?thesis by simp
  qed
qed

lemma restoreTerminals_array:
  assumes "get_prop state ''terminals'' = Inr (JArr xs)"
  shows "\<exists>c. restoreTerminals w state s = (fold (restore_entry w) xs (s\<lparr>config := c\<rparr>), None)"
proof (cases rule: restoreTerminals_cases[of w state s])
  case (stopped c)
  from assms obtain kvs where st: "state = JObj kvs" by (cases state) simp_all
  define s1 where "s1 = (case get_prop state ''config'' of
              Inl e \<Rightarrow> s
            | Inr c \<Rightarrow> if truthy c then s\<lparr>config := spread (config s) (own_props c)\<rparr> else s)"
  have "restoreTerminals w state s = (fold (restore_entry w) xs s1, None)"
    using assms st by (simp add: restoreTerminals_def s1_def)
  moreover have "s1 = s\<lparr>config := config s1\<rparr>"
    by (simp add: s1_def split: sum.splits)
  ultimately have "restoreTerminals w state s
      = (fold (restore_entry w) xs (s\<lparr>config := config s1\<rparr>), None)"
    by simp
  then show ?thesis by (rule exI)
next
  case (entries ys c)
  with assms have "restoreTerminals w state s
      = (fold (restore_entry w) xs (s\<lparr>config := c\<rparr>), None)"
    by simp
  then show ?thesis by (rule exI)
qed

lemma get_prop_field: "x \<noteq> JNull \<Longrightarrow> x \<noteq> JUndef \<Longrightarrow> get_prop x k = Inr (field x k)"
  by (cases x) (simp_all add: field_def)

lemma restore_entry_null:
  assumes "x = JNull \<or> x = JUndef"
  shows "\<exists>e. restore_entry w x s
           = s\<lparr>console_error := console_error s @ [(''Failed to restore terminal:'', e)]\<rparr>"
  using assms by (auto simp: restore_entry_def)

lemma restore_entry_call:
  assumes "x \<noteq> JNull" "x \<noteq> JUndef"
  shows "restore_entry w x s
     = (case createTerminal w (field x ''shellProfile'') (field x ''cwd'')
               (JObj [(''cols'', field x ''cols''), (''rows'', field x ''rows'')]) s of
          (s1, Inl e) \<Rightarrow>
             s1\<lparr>console_error := console_error s1 @ [(''Failed to restore terminal:'', e)]\<rparr>
        | (s1, Inr a) \<Rightarrow> s1)"
  by (simp add: restore_entry_def get_prop_field[OF assms])

lemma spawnShell_default_param:
  "spawnShell w (default_param p JNull) d so = spawnShell w p d so"
  by (simp add: spawnShell_def default_param_def)

lemma js_or_default_param: "js_or (default_param d JNull) v = js_or d v"
  by (simp add: js_or_def default_param_def)

lemma createTerminal_descriptor:
  "isl (snd (createTerminal w (field x ''shellProfile'') (field x ''cwd'')
               (JObj [(''cols'', field x ''cols''), (''rows'', field x ''rows'')]) s))
     = isl (descriptor_spawn w x)"
  by (simp add: createTerminal_def Let_def descriptor_spawn_def spawnShell_default_param
      js_or_default_param default_param_def[of "JObj _"] js_or_def[of JUndef] split: sum.splits)

lemma restore_entry_spec:
  assumes kb: "keys_below s"
  shows "x = JNull \<or> x = JUndef \<Longrightarrow>
           terminals (restore_entry w x s) = terminals s
           \<and> nextTerminalId (restore_entry w x s) = nextTerminalId s
           \<and> map tid (heap (restore_entry w x s)) = map tid (heap s)
           \<and> restore_failures (restore_entry w x s) = Suc (restore_failures s)"
    and "x \<noteq> JNull \<Longrightarrow> x \<noteq> JUndef \<Longrightarrow> isl (descriptor_spawn w x) \<Longrightarrow>
           terminals (restore_entry w x s) = terminals s
           \<and> nextTerminalId (restore_entry w x s) = Suc (nextTerminalId s)
           \<and> map tid (heap (restore_entry w x s)) = map tid (heap s)
           \<and> restore_failures (restore_entry w x s) = Suc (restore_failures s)"
    and "x \<noteq> JNull \<Longrightarrow> x \<noteq> JUndef \<Longrightarrow> \<not> isl (descriptor_spawn w x) \<Longrightarrow>
           terminals (restore_entry w x s) = terminals s @ [(nextTerminalId s, length (heap s))]
           \<and> nextTerminalId (restore_entry w x s) = Suc (nextTerminalId s)
           \<and> map tid (heap (restore_entry w x s)) = map tid (heap s) @ [nextTerminalId s]
           \<and> restore_failures (restore_entry w x s) = restore_failures s"
proof -
  let ?call = "createTerminal w (field x ''shellProfile'') (field x ''cwd'')
               (JObj [(''cols'', field x ''cols''), (''rows'', field x ''rows'')]) s"
  show "terminals (restore_entry w x s) = terminals s
           \<and> nextTerminalId (restore_entry w x s) = nextTerminalId s
           \<and> map tid (heap (restore_entry w x s)) = map tid (heap s)
           \<and> restore_failures (restore_entry w x s) = Suc (restore_failures s)"
    if "x = JNull \<or> x = JUndef"
    using restore_entry_null[OF that, of w s] by (auto simp: restore_failures_def)
  show "terminals (restore_entry w x s) = terminals s
           \<and> nextTerminalId (restore_entry w x s) = Suc (nextTerminalId s)
           \<and> map tid (heap (restore_entry w x s)) = map tid (heap s)
           \<and> restore_failures (restore_entry w x s) = Suc (restore_failures s)"
    if nn: "x \<noteq> JNull" "x \<noteq> JUndef" and th: "isl (descriptor_spawn w x)"
  proof (cases rule: createTerminal_cases[of w "field x ''shellProfile''" "field x ''cwd''"
        "JObj [(''cols'', field x ''cols''), (''rows'', field x ''rows'')]" s])
    case (failed e)
    then show ?thesis
      by (simp add: restore_entry_call[OF nn] restore_failures_def)
  next
    case (created t dir)
    with th createTerminal_descriptor[of w x s] show ?thesis by simp
  qed
  show "terminals (restore_entry w x s) = terminals s @ [(nextTerminalId s, length (heap s))]
           \<and> nextTerminalId (restore_entry w x s) = Suc (nextTerminalId s)
           \<and> map tid (heap (restore_entry w x s)) = map tid (heap s) @ [nextTerminalId s]
           \<and> restore_failures (restore_entry w x s) = restore_failures s"
    if nn: "x \<noteq> JNull" "x \<noteq> JUndef" and th: "\<not> isl (descriptor_spawn w x)"
  proof (cases rule: createTerminal_cases[of w "field x ''shellProfile''" "field x ''cwd''"
        "JObj [(''cols'', field x ''cols''), (''rows'', field x ''rows'')]" s])
    case (failed e)
    with th createTerminal_descriptor[of w x s] show ?thesis by simp
  next
    case (created t dir)
    from kb have "map_of (terminals s) (nextTerminalId s) = None"
      by (auto simp: keys_below_def has_def)
    then have "AList.update (nextTerminalId s) (length (heap s)) (terminals s)
        = terminals s @ [(nextTerminalId s, length (heap s))]"
      by (rule update_fresh)
    with created show ?thesis
      by (simp add: restore_entry_call[OF nn] restore_failures_def)
  qed
qed

lemma filter_skipped_Cons:
  "length (filter (skipped w) (x # xs))
     = (if x = JNull \<or> x = JUndef \<or> isl (descriptor_spawn w x) then 1 else 0)
       + length (filter (skipped w) xs)"
  by (simp add: skipped_def)

lemma restore_fold_spec:
  assumes "keys_below s"
  shows "terminals (fold (restore_entry w) xs s)
           = terminals s @ restored_entries w xs (nextTerminalId s) (length (heap s))
         \<and> map tid (heap (fold (restore_entry w) xs s))
           = map tid (heap s) @ map fst (restored_entries w xs (nextTerminalId s) (length (heap s)))
         \<and> restore_failures (fold (restore_entry w) xs s)
           = restore_failures s + length (filter (skipped w) xs)"
  using assms
proof (induction xs arbitrary: s)
  case Nil
  then show ?case by simp
next
  case (Cons x xs)
  let ?s1 = "restore_entry w x s"
  have kb1: "keys_below ?s1" using Cons.prems by (rule restore_entry_keys_below)
  note IH = Cons.IH[OF kb1]
  have len: "length (heap ?s1) = length (map tid (heap ?s1))" by simp
  consider (null) "x = JNull \<or> x = JUndef"
    | (throws) "x \<noteq> JNull" "x \<noteq> JUndef" "isl (descriptor_spawn w x)"
    | (restored) "x \<noteq> JNull" "x \<noteq> JUndef" "\<not> isl (descriptor_spawn w x)"
    by blast
  then show ?case
  proof cases
    case null
    from restore_entry_spec(1)[OF Cons.prems null, of w] IH null len show ?thesis
      by (auto simp: skipped_def)
  next
    case throws
    from restore_entry_spec(2)[OF Cons.prems throws, of ] IH throws len show ?thesis
      by (auto simp: skipped_def)
  next
    case restored
    from restore_entry_spec(3)[OF Cons.prems restored] IH restored len show ?thesis
      by (auto simp: skipped_def)
  qed
qed

lemma length_restored_entries:
  "length (restored_entries w xs n a) = length (filter (\<lambda>x. \<not> skipped w x) xs)"
  by (induction xs arbitrary: n a) (auto simp: skipped_def)

lemma restored_entries_ids:
  "\<forall>i \<in> set (map fst (restored_entries w xs n a)). n \<le> i"
proof (induction xs arbitrary: n a)
  case Nil
  show ?case by simp
next
  case (Cons x xs)
  from Cons[of n a] Cons[of "Suc n" a] Cons[of "Suc n" "Suc a"] show ?case
    by (auto simp: Suc_le_eq intro: less_imp_le)
qed

lemma restored_entries_sorted:
  "sorted_wrt (<) (map fst (restored_entries w xs n a))"
proof (induction xs arbitrary: n a)
  case Nil
  show ?case by simp
next
  case (Cons x xs)
  from Cons[of n a] Cons[of "Suc n" a] Cons[of "Suc n" "Suc a"]
    restored_entries_ids[of w xs "Suc n" "Suc a"]
  show ?case by (auto simp: Suc_le_eq)
qed

text \<open>
  Claim C9, amended. In every state the service can reach, restoring a snapshot whose
  \<^verbatim>\<open>terminals\<close> is an array returns normally and handles the descriptors one by one, in
  order: the registry keeps its entries and gains exactly one entry, with a new id, for
  every descriptor that is not skipped, and exactly the skipped ones are logged as
  failed. A descriptor is skipped when it is \<^verbatim>\<open>null\<close> or \<^verbatim>\<open>undefined\<close> or when its
  spawn throws, whatever the descriptors before and after it do; the spawn of a
  descriptor gets its fields as they are, with the defaults only for missing or falsy
  ones. The new ids increase strictly and are not below the id counter, and the
  instances created are those of the new entries. In particular, of five descriptors of
  which one is skipped exactly four are restored.
\<close>

theorem restore_each_descriptor_on_its_own:
  assumes "s = run es0 TerminalService" and "get_prop state ''terminals'' = Inr (JArr xs)"
  shows "snd (restoreTerminals w state s) = None
    \<and> terminals (fst (restoreTerminals w state s))
        = terminals s @ restored_entries w xs (nextTerminalId s) (length (heap s))
    \<and> map tid (heap (fst (restoreTerminals w state s)))
        = map tid (heap s) @ map fst (restored_entries w xs (nextTerminalId s) (length (heap s)))
    \<and> restore_failures (fst (restoreTerminals w state s))
        = restore_failures s + length (filter (skipped w) xs)
    \<and> length (restored_entries w xs (nextTerminalId s) (length (heap s)))
        = length (filter (\<lambda>x. \<not> skipped w x) xs)
    \<and> sorted_wrt (<) (map fst (restored_entries w xs (nextTerminalId s) (length (heap s))))
    \<and> (\<forall>i \<in> set (map fst (restored_entries w xs (nextTerminalId s) (length (heap s)))).
          nextTerminalId s \<le> i)
    \<and> (length xs = 5 \<and> length (filter (skipped w) xs) = 1 \<longrightarrow>
          length (terminals (fst (restoreTerminals w state s))) = length (terminals s) + 4)"
proof -
  let ?new = "restored_entries w xs (nextTerminalId s) (length (heap s))"
  have kb: "keys_below s" using assms(1) reachable_invariants(1) by simp
  obtain c where c: "restoreTerminals w state s = (fold (restore_entry w) xs (s\<lparr>config := c\<rparr>), None)"
    using restoreTerminals_array[OF assms(2)] by blast
  have "keys_below (s\<lparr>config := c\<rparr>)" using kb by (simp add: keys_below_def has_def)
  from restore_fold_spec[OF this, of w xs]
  have 1: "terminals (fst (restoreTerminals w state s)) = terminals s @ ?new"
    and 2: "map tid (heap (fst (restoreTerminals w state s))) = map tid (heap s) @ map fst ?new"
    and 3: "restore_failures (fst (restoreTerminals w state s))
             = restore_failures s + length (filter (skipped w) xs)"
    by (simp_all add: c)
  have 0: "snd (restoreTerminals w state s) = None" by (simp add: c)
  have 4: "length ?new = length (filter (\<lambda>x. \<not> skipped w x) xs)"
    by (rule length_restored_entries)
  have 5: "sorted_wrt (<) (map fst ?new)" by (rule restored_entries_sorted)
  have 6: "\<forall>i \<in> set (map fst ?new). nextTerminalId s \<le> i" by (rule restored_entries_ids)
  have "length (filter (skipped w) xs) + length (filter (\<lambda>x. \<not> skipped w x) xs) = length xs"
    by (rule sum_length_filter_compl)
  with 1 4 have 7: "length xs = 5 \<and> length (filter (skipped w) xs) = 1 \<longrightarrow>
          length (terminals (fst (restoreTerminals w state s))) = length (terminals s) + 4"
    by auto
  from 0 1 2 3 4 5 6 7 show ?thesis by (intro conjI)
qed

lemma world0_descriptors:
  "descriptor0 \<noteq> JNull" "descriptor0 \<noteq> JUndef"
  "descriptor_bad_cols \<noteq> JNull" "descriptor_bad_cols \<noteq> JUndef"
  "\<not> isl (descriptor_spawn world0 descriptor0)"
  "isl (descriptor_spawn world0 descriptor_bad_cols)"
  by (simp_all add: descriptor0_def descriptor_bad_cols_def descriptor_spawn_def field_def
      spawnShell_def world0_def js_or_def bash_def Let_def)

theorem restore_each_descriptor_on_its_own_witness:
  "TerminalService = run [] TerminalService
   \<and> get_prop (snapshot [descriptor0, descriptor0, descriptor_bad_cols, descriptor0, descriptor0])
        ''terminals''
       = Inr (JArr [descriptor0, descriptor0, descriptor_bad_cols, descriptor0, descriptor0])
   \<and> length (filter (skipped world0)
                [descriptor0, descriptor0, descriptor_bad_cols, descriptor0, descriptor0]) = 1
   \<and> terminals (fst (restoreTerminals world0
       (snapshot [descriptor0, descriptor0, descriptor_bad_cols, descriptor0, descriptor0])
       TerminalService))
     = [(1, 0), (2, 1), (4, 2), (5, 3)]
   \<and> map tid (heap (fst (restoreTerminals world0
       (snapshot [descriptor0, descriptor0, descriptor_bad_cols, descriptor0, descriptor0])
       TerminalService)))
     = [1, 2, 4, 5]
   \<and> restore_failures (fst (restoreTerminals world0
       (snapshot [descriptor0, descriptor0, descriptor_bad_cols, descriptor0, descriptor0])
       TerminalService)) = 1
   \<and> terminals (fst (restoreTerminals world0
       (snapshot [descriptor0, descriptor0, JNull, descriptor0, descriptor0])
       TerminalService))
     = [(1, 0), (2, 1), (3, 2), (4, 3)]
   \<and> restore_failures (fst (restoreTerminals world0
       (snapshot [descriptor0, descriptor0, JNull, descriptor0, descriptor0])
       TerminalService)) = 1"
proof -
  let ?A = "[descriptor0, descriptor0, descriptor_bad_cols, descriptor0, descriptor0]"
  let ?B = "[descriptor0, descriptor0, JNull, descriptor0, descriptor0]"
  have a: "TerminalService = run [] TerminalService" by simp
  have b: "get_prop (snapshot ?A) ''terminals'' = Inr (JArr ?A)"
    and b': "get_prop (snapshot ?B) ''terminals'' = Inr (JArr ?B)"
    by (simp_all add: snapshot_def)
  have t0: "terminals TerminalService = []" "restore_failures TerminalService = 0"
    "nextTerminalId TerminalService = 1" "length (heap TerminalService) = 0"
    "map tid (heap TerminalService) = []"
    by (simp_all add: TerminalService_def restore_failures_def)
  have sk: "length (filter (skipped world0) ?A) = 1" "length (filter (skipped world0) ?B) = 1"
    by (simp_all add: skipped_def world0_descriptors)
  have rA: "restored_entries world0 ?A 1 0 = [(1, 0), (2, 1), (4, 2), (5, 3)]"
    and rB: "restored_entries world0 ?B 1 0 = [(1, 0), (2, 1), (3, 2), (4, 3)]"
    by (simp_all add: world0_descriptors)
  have mA: "map fst [(1::nat, 0::nat), (2, 1), (4, 2), (5, 3)] = [1, 2, 4, 5]" by simp
  note A = restore_each_descriptor_on_its_own [OF a b, of world0]
  note B = restore_each_descriptor_on_its_own [OF a b', of world0]
  from A have "terminals (fst (restoreTerminals world0 (snapshot ?A) TerminalService))
      = terminals TerminalService
        @ restored_entries world0 ?A (nextTerminalId TerminalService) (length (heap TerminalService))"
    by blast
  then have 1: "terminals (fst (restoreTerminals world0 (snapshot ?A) TerminalService))
            = [(1, 0), (2, 1), (4, 2), (5, 3)]"
    by (simp only: t0 rA append_Nil)
  from A have "map tid (heap (fst (restoreTerminals world0 (snapshot ?A) TerminalService)))
      = map tid (heap TerminalService)
        @ map fst (restored_entries world0 ?A (nextTerminalId TerminalService)
                     (length (heap TerminalService)))"
    by blast
  then have 2: "map tid (heap (fst (restoreTerminals world0 (snapshot ?A) TerminalService)))
            = [1, 2, 4, 5]"
    by (simp only: t0 rA mA append_Nil)
  from A have "restore_failures (fst (restoreTerminals world0 (snapshot ?A) TerminalService))
      = restore_failures TerminalService + length (filter (skipped world0) ?A)"
    by blast
  then have 3: "restore_failures (fst (restoreTerminals world0 (snapshot ?A) TerminalService)) = 1"
    by (simp only: t0 sk add_0)
  from B have "terminals (fst (restoreTerminals world0 (snapshot ?B) TerminalService))
      = terminals TerminalService
        @ restored_entries world0 ?B (nextTerminalId TerminalService) (length (heap TerminalService))"
    by blast
  then have 4: "terminals (fst (restoreTerminals world0 (snapshot ?B) TerminalService))
            = [(1, 0), (2, 1), (3, 2), (4, 3)]"
    by (simp only: t0 rB append_Nil)
  from B have "restore_failures (fst (restoreTerminals world0 (snapshot ?B) TerminalService))
      = restore_failures TerminalService + length (filter (skipped world0) ?B)"
    by blast
  then have 5: "restore_failures (fst (restoreTerminals world0 (snapshot ?B) TerminalService)) = 1"
    by (simp only: t0 sk add_0)
  show ?thesis
    by (intro conjI a b sk(1) 1 2 3 4 5)
qed

lemma restore_world0_ok:
  assumes "x = descriptor0 \<or> x = descriptor_empty"
  shows "terminals (restore_entry world0 x s)
           = AList.update (nextTerminalId s) (length (heap s)) (terminals s)"
    "nextTerminalId (restore_entry world0 x s) = nextTerminalId s + 1"
    "length (heap (restore_entry world0 x s)) = length (heap s) + 1"
    "console_error (restore_entry world0 x s) = console_error s"
  using assms
  by (auto simp: restore_entry_def descriptor0_def descriptor_empty_def createTerminal_def
      world0_def default_param_def js_or_def spawnShell_def Let_def service_emit_def)

lemma restoreTerminals_snapshot:
  "fst (restoreTerminals w (snapshot ds) s)
     = fold (restore_entry w) ds
         (s\<lparr>config := spread (config s) [(''fontSize'', JNum 16)]\<rparr>)"
  by (simp add: restoreTerminals_def snapshot_def)

text \<open>
  Claim C9, as the code has it. A snapshot of four well-formed descriptors and the
  malformed descriptor \<^verbatim>\<open>{}\<close> restores five terminals and logs nothing: the missing
  fields fall back to the defaults of \<^verbatim>\<open>createTerminal\<close>.
\<close>

theorem restore_malformed_entry_not_skipped:
  "terminals (fst (restoreTerminals world0
       (snapshot [descriptor0, descriptor0, descriptor_empty, descriptor0, descriptor0])
       TerminalService))
     = [(1, 0), (2, 1), (3, 2), (4, 3), (5, 4)]
   \<and> restore_failures (fst (restoreTerminals world0
       (snapshot [descriptor0, descriptor0, descriptor_empty, descriptor0, descriptor0])
       TerminalService)) = 0"
  by (simp add: restoreTerminals_snapshot restore_world0_ok restore_failures_def
      TerminalService_def)

end
